theory Spec2Isabelle
  imports Main "HOL-Library.Word"
begin

section \<open>Errors\<close>

text \<open>
  The exception classes of \<^verbatim>\<open>chemfiles/Error.hpp\<close>: \<^verbatim>\<open>Error\<close> is the base class, the
  four others derive from it, and each carries its message. A C++ function that may throw
  is modelled as a function into \<open>error + 'a\<close>, with \<open>Inl\<close> for the exception.
  \<^verbatim>\<open>std::out_of_range\<close> is what \<^verbatim>\<open>std::vector::at\<close> throws, \<^verbatim>\<open>std::length_error\<close> what
  \<^verbatim>\<open>std::vector::resize\<close> throws for a size beyond \<^verbatim>\<open>max_size()\<close>.
\<close>

datatype error =
    Error string
  | FileError string
  | MemoryError string
  | FormatError string
  | PluginError string
  | StdOutOfRange
  | StdLengthError

text \<open>\<^verbatim>\<open>std::to_string\<close> on an unsigned value and on an \<^verbatim>\<open>int\<close>: decimal digits.\<close>

definition digit_char :: "nat \<Rightarrow> char" where
  "digit_char d = ''0123456789'' ! d"

function to_string :: "nat \<Rightarrow> string" where
  "to_string n = (if n < 10 then [digit_char n] else to_string (n div 10) @ [digit_char (n mod 10)])"
  by pat_completeness auto
termination
  by (relation "measure id") auto

declare to_string.simps [simp del]

definition to_string_int :: "int \<Rightarrow> string" where
  "to_string_int k = (if k < 0 then CHR ''-'' # to_string (nat (- k)) else to_string (nat k))"

section \<open>Topology\<close>

text \<open>
  \<^verbatim>\<open>Topology\<close> owns the atom sequence \<^verbatim>\<open>atoms_\<close> and the connectivity \<^verbatim>\<open>connect_\<close>.
  The class \<^verbatim>\<open>Atom\<close> is declared outside the sources at hand, so the atom type is a type
  parameter, and the value \<^verbatim>\<open>Atom(Atom::UNDEFINED)\<close> is a parameter of \<open>Topology_resize\<close>.
  Indices are \<^verbatim>\<open>size_t\<close>; the topology functions only compare them, so they are \<open>nat\<close>.
  A bond is read through \<^verbatim>\<open>bond[0]\<close> and \<^verbatim>\<open>bond[1]\<close>: a pair. The bond container is kept
  as the list of its elements in iteration order. Running out of memory
  (\<^verbatim>\<open>std::bad_alloc\<close>) is outside the model; the size check of \<^verbatim>\<open>std::vector::resize\<close>
  is part of it.
\<close>

type_synonym Bond = "nat \<times> nat"

record Connectivity =
  bonds :: "Bond list"

record 'a Topology =
  atoms :: "'a list"
  connect :: Connectivity

text \<open>
  Modelled from the spec: \<^verbatim>\<open>Connectivity::bonds\<close> and \<^verbatim>\<open>Connectivity::remove_bond\<close>
  (the class \<^verbatim>\<open>Connectivity\<close> is used by \<^verbatim>\<open>Topology.cpp\<close> but its code is not among the
  sources). The spec has the connectivity hold "the bond set" and a bond be an "unordered
  pair of atom indices": \<open>Connectivity_bonds\<close> returns the stored bonds, and
  \<open>Connectivity_remove_bond i j\<close> drops the bond joining \<open>i\<close> and \<open>j\<close>, in either order,
  and no other bond.
\<close>

fun same_bond :: "Bond \<Rightarrow> Bond \<Rightarrow> bool" where
  "same_bond (a, b) (i, j) = ((a = i \<and> b = j) \<or> (a = j \<and> b = i))"

definition Connectivity_bonds :: "Connectivity \<Rightarrow> Bond list" where
  "Connectivity_bonds c = bonds c"

definition Connectivity_remove_bond :: "nat \<Rightarrow> nat \<Rightarrow> Connectivity \<Rightarrow> Connectivity" where
  "Connectivity_remove_bond i j c = c\<lparr>bonds := filter (\<lambda>b. \<not> same_bond b (i, j)) (bonds c)\<rparr>"

text \<open>
  \<^verbatim>\<open>Topology::bonds\<close> copies the bond container into a fresh vector, in order.
\<close>

definition Topology_bonds :: "'a Topology \<Rightarrow> Bond list" where
  "Topology_bonds t = [] @ Connectivity_bonds (connect t)"

text \<open>
  \<^verbatim>\<open>Topology::resize\<close>. The loop over \<^verbatim>\<open>bonds()\<close> throws \<^verbatim>\<open>Error\<close> at the first bond with
  an index \<^verbatim>\<open>>= natoms\<close>; this happens before \<^verbatim>\<open>atoms_\<close> is touched. Only then
  \<^verbatim>\<open>atoms_.resize(natoms, Atom(Atom::UNDEFINED))\<close> runs. \<^verbatim>\<open>std::vector::resize\<close> throws
  \<^verbatim>\<open>std::length_error\<close>, leaving the vector as it is, when the new size exceeds
  \<^verbatim>\<open>max_size()\<close>. This limit depends on the size of an \<^verbatim>\<open>Atom\<close> and on the library; it
  is the parameter \<open>max_size\<close>, and never more than \<^verbatim>\<open>PTRDIFF_MAX\<close>, which is
  \<open>2\<^sup>6\<^sup>3 - 1\<close>. The function returns the outcome of the call together with the
  topology as it is after the call.
\<close>

fun resize_check :: "nat \<Rightarrow> Bond list \<Rightarrow> error option" where
  "resize_check natoms [] = None"
| "resize_check natoms (bond # rest) =
     (if fst bond \<ge> natoms \<or> snd bond \<ge> natoms
      then Some (Error (''Can not resize the topology to '' @ to_string natoms @
                        '' as there is a bond between atoms '' @ to_string (fst bond) @
                        ''-'' @ to_string (snd bond) @ ''.''))
      else resize_check natoms rest)"

definition vector_resize :: "nat \<Rightarrow> nat \<Rightarrow> 'a \<Rightarrow> 'a list \<Rightarrow> error + 'a list" where
  "vector_resize max_size n v xs =
     (if n > max_size then Inl StdLengthError
      else Inr (take n xs @ replicate (n - length xs) v))"

definition Topology_resize ::
  "nat \<Rightarrow> 'a \<Rightarrow> nat \<Rightarrow> 'a Topology \<Rightarrow> (error + unit) \<times> 'a Topology" where
  "Topology_resize max_size UNDEFINED natoms t =
     (case resize_check natoms (Topology_bonds t) of
        Some e \<Rightarrow> (Inl e, t)
      | None \<Rightarrow>
          (case vector_resize max_size natoms UNDEFINED (atoms t) of
             Inl e \<Rightarrow> (Inl e, t)
           | Inr atoms' \<Rightarrow> (Inr (), t\<lparr>atoms := atoms'\<rparr>)))"

definition Topology_append :: "'a \<Rightarrow> 'a Topology \<Rightarrow> 'a Topology" where
  "Topology_append atom t = t\<lparr>atoms := atoms t @ [atom]\<rparr>"

text \<open>
  \<^verbatim>\<open>Topology::remove\<close>. \<^verbatim>\<open>atoms_.erase(atoms_.begin() + idx)\<close> is defined only for
  \<^verbatim>\<open>idx < atoms_.size()\<close>; beyond, the behaviour of the C++ is undefined, which is the
  result \<open>None\<close>. The loop runs over a copy of the bond container and calls
  \<^verbatim>\<open>connect_.remove_bond(bond[0], bond[1])\<close> for each bond with \<^verbatim>\<open>idx\<close> as an endpoint.
\<close>

definition vector_erase :: "nat \<Rightarrow> 'a list \<Rightarrow> 'a list" where
  "vector_erase idx xs = take idx xs @ drop (Suc idx) xs"

fun remove_loop :: "nat \<Rightarrow> Bond list \<Rightarrow> Connectivity \<Rightarrow> Connectivity" where
  "remove_loop idx [] c = c"
| "remove_loop idx (bond # rest) c =
     remove_loop idx rest
       (if fst bond = idx \<or> snd bond = idx
        then Connectivity_remove_bond (fst bond) (snd bond) c
        else c)"

definition Topology_remove :: "nat \<Rightarrow> 'a Topology \<Rightarrow> 'a Topology option" where
  "Topology_remove idx t =
     (if idx < length (atoms t)
      then (let atoms' = vector_erase idx (atoms t);
                bonds_copy = Connectivity_bonds (connect t)
            in Some (t\<lparr>atoms := atoms', connect := remove_loop idx bonds_copy (connect t)\<rparr>))
      else None)"

section \<open>Format registry\<close>

text \<open>
  \<^verbatim>\<open>FormatFactory\<close> keeps a vector of \<^verbatim>\<open>RegisteredFormat\<close>, each holding the format's
  \<^verbatim>\<open>FormatInfo\<close>, its creator and its in-memory creator. \<^verbatim>\<open>FormatInfo\<close> is declared in a
  header outside the sources at hand; the registry reads its \<^verbatim>\<open>name()\<close> and
  \<^verbatim>\<open>extension()\<close>, both strings. The creators are function objects that the registry
  stores and returns without calling them, so their types are parameters. The mutex
  around the vector is not modelled: every function takes the vector and returns it.
\<close>

record FormatInfo =
  name :: string
  extension :: string
  description :: string

record ('c, 'm) RegisteredFormat =
  info :: FormatInfo
  creator :: 'c
  memory_stream_creator :: 'm

text \<open>
  \<^verbatim>\<open>SENTINEL_INDEX\<close> is \<^verbatim>\<open>static_cast<size_t>(-1)\<close>, with \<^verbatim>\<open>size_t\<close> 64 bits wide.
  The loop counter of the two searches stays below \<^verbatim>\<open>formats.size()\<close>, so its
  increment does not wrap.
\<close>

definition SENTINEL_INDEX :: nat where
  "SENTINEL_INDEX = 18446744073709551615"

function find_by_name_loop :: "('c, 'm) RegisteredFormat list \<Rightarrow> string \<Rightarrow> nat \<Rightarrow> nat" where
  "find_by_name_loop formats nm i =
     (if i < length formats
      then (if name (info (formats ! i)) = nm then i
            else find_by_name_loop formats nm (i + 1))
      else SENTINEL_INDEX)"
  by pat_completeness auto
termination
  by (relation "measure (\<lambda>(formats, nm, i). length formats - i)") auto

declare find_by_name_loop.simps [simp del]

definition find_by_name :: "('c, 'm) RegisteredFormat list \<Rightarrow> string \<Rightarrow> nat" where
  "find_by_name formats nm = find_by_name_loop formats nm 0"

function find_by_extension_loop :: "('c, 'm) RegisteredFormat list \<Rightarrow> string \<Rightarrow> nat \<Rightarrow> nat" where
  "find_by_extension_loop formats ext i =
     (if i < length formats
      then (if extension (info (formats ! i)) = ext then i
            else find_by_extension_loop formats ext (i + 1))
      else SENTINEL_INDEX)"
  by pat_completeness auto
termination
  by (relation "measure (\<lambda>(formats, ext, i). length formats - i)") auto

declare find_by_extension_loop.simps [simp del]

definition find_by_extension :: "('c, 'm) RegisteredFormat list \<Rightarrow> string \<Rightarrow> nat" where
  "find_by_extension formats ext = find_by_extension_loop formats ext 0"

text \<open>The \<^verbatim>\<open>'{}'\<close> of the message formats: the argument between two apostrophes.\<close>

definition quoted :: "string \<Rightarrow> string" where
  "quoted s = CHR 0x27 # s @ [CHR 0x27]"

text \<open>
  \<^verbatim>\<open>FormatFactory::register_format\<close> with three arguments. Each \<^verbatim>\<open>throw\<close> comes before
  the \<^verbatim>\<open>push_back\<close>, so a failed call returns the vector it was given.
\<close>

definition FormatFactory_register_format ::
  "FormatInfo \<Rightarrow> 'c \<Rightarrow> 'm \<Rightarrow> ('c, 'm) RegisteredFormat list
   \<Rightarrow> (error + unit) \<times> ('c, 'm) RegisteredFormat list" where
  "FormatFactory_register_format finfo creat memory_stream formats =
     (if name finfo = []
      then (Inl (FormatError ''can not register a format with no name''), formats)
      else if find_by_name formats (name finfo) \<noteq> SENTINEL_INDEX
      then (Inl (FormatError (''there is already a format associated with the name '' @
                              quoted (name finfo))), formats)
      else if extension finfo \<noteq> [] \<and>
              find_by_extension formats (extension finfo) \<noteq> SENTINEL_INDEX
      then (Inl (FormatError (''the extension '' @ quoted (extension finfo) @
                              '' is already associated with format '' @
                              quoted (name (info (formats !
                                 find_by_extension formats (extension finfo)))))), formats)
      else (Inr (), formats @
              [\<lparr>info = finfo, creator = creat, memory_stream_creator = memory_stream\<rparr>]))"

text \<open>
  \<^verbatim>\<open>FormatFactory::register_format\<close> with two arguments registers a function object
  that ignores its three arguments and throws.
\<close>

definition no_memory_stream :: "FormatInfo \<Rightarrow> 'b \<Rightarrow> 'md \<Rightarrow> 'cp \<Rightarrow> error + 'f" where
  "no_memory_stream finfo buffer md compression =
     Inl (FormatError (''in-memory IO is not supported for the '' @ quoted (name finfo) @
                       '' format''))"

definition FormatFactory_register_format2 ::
  "FormatInfo \<Rightarrow> 'c \<Rightarrow> ('c, 'b \<Rightarrow> 'md \<Rightarrow> 'cp \<Rightarrow> error + 'f) RegisteredFormat list
   \<Rightarrow> (error + unit) \<times> ('c, 'b \<Rightarrow> 'md \<Rightarrow> 'cp \<Rightarrow> error + 'f) RegisteredFormat list" where
  "FormatFactory_register_format2 finfo creat formats =
     FormatFactory_register_format finfo creat (no_memory_stream finfo) formats"

definition FormatFactory_formats :: "('c, 'm) RegisteredFormat list \<Rightarrow> FormatInfo list" where
  "FormatFactory_formats formats = map info formats"

subsection \<open>Edit distance\<close>

text \<open>
  \<^verbatim>\<open>std::tolower\<close> in the default "C" locale: the 26 upper-case letters go to their
  lower-case letters, every other character to itself.
\<close>

definition tolower :: "char \<Rightarrow> char" where
  "tolower c =
     (case map_of (zip ''ABCDEFGHIJKLMNOPQRSTUVWXYZ'' ''abcdefghijklmnopqrstuvwxyz'') c of
        Some l \<Rightarrow> l
      | None \<Rightarrow> c)"

text \<open>
  The counters \<^verbatim>\<open>i\<close>, \<^verbatim>\<open>j\<close> and the table entries of \<^verbatim>\<open>edit_distance\<close> are
  \<^verbatim>\<open>unsigned\<close>, 32 bits wide: a natural number below \<open>2 ^ 32\<close>, with \<^verbatim>\<open>x + 1\<close> and
  \<^verbatim>\<open>x - 1\<close> wrapping around. The bounds \<^verbatim>\<open>m\<close> and \<^verbatim>\<open>n\<close> are \<^verbatim>\<open>size_t\<close>; a comparison
  \<^verbatim>\<open>i < m\<close> converts the counter to \<^verbatim>\<open>size_t\<close>, which keeps its value.
\<close>

definition uinc :: "nat \<Rightarrow> nat" where
  "uinc x = (x + 1) mod 4294967296"

definition udec :: "nat \<Rightarrow> nat" where
  "udec x = (x + 4294967295) mod 4294967296"

type_synonym table = "nat list list"

text \<open>The assignment \<^verbatim>\<open>distances[i][j] = v\<close>.\<close>

definition table_set :: "table \<Rightarrow> nat \<Rightarrow> nat \<Rightarrow> nat \<Rightarrow> table" where
  "table_set d i j v = d[i := (d ! i)[j := v]]"

text \<open>
  The four loops of \<^verbatim>\<open>edit_distance\<close>. A \<^verbatim>\<open>for\<close> loop whose 32-bit counter can never
  reach its 64-bit bound does not terminate; the result \<open>None\<close> stands for a call that
  does not return. The table is a vector of \<^verbatim>\<open>m\<close> vectors of \<^verbatim>\<open>n\<close> zeros, read and
  written without bounds checks; its allocation is taken to succeed.
\<close>

partial_function (option) fill_first_column :: "nat \<Rightarrow> nat \<Rightarrow> table \<Rightarrow> table option" where
  "fill_first_column m i distances =
     (if i < m then fill_first_column m (uinc i) (table_set distances i 0 i)
      else Some distances)"

partial_function (option) fill_first_row :: "nat \<Rightarrow> nat \<Rightarrow> table \<Rightarrow> table option" where
  "fill_first_row n j distances =
     (if j < n then fill_first_row n (uinc j) (table_set distances 0 j j)
      else Some distances)"

partial_function (option) fill_column ::
  "string \<Rightarrow> string \<Rightarrow> nat \<Rightarrow> nat \<Rightarrow> nat \<Rightarrow> table \<Rightarrow> table option" where
  "fill_column first second m j i distances =
     (if i < m
      then fill_column first second m j (uinc i)
             (if tolower (first ! udec i) = tolower (second ! udec j)
              then table_set distances i j (distances ! udec i ! udec j)
              else table_set distances i j
                     (min (min (uinc (distances ! udec i ! j))
                               (uinc (distances ! i ! udec j)))
                          (uinc (distances ! udec i ! udec j))))
      else Some distances)"

partial_function (option) fill_table ::
  "string \<Rightarrow> string \<Rightarrow> nat \<Rightarrow> nat \<Rightarrow> nat \<Rightarrow> table \<Rightarrow> table option" where
  "fill_table first second m n j distances =
     (if j < n
      then Option.bind (fill_column first second m j 1 distances)
             (\<lambda>distances'. fill_table first second m n (uinc j) distances')
      else Some distances)"

definition edit_distance :: "string \<Rightarrow> string \<Rightarrow> nat option" where
  "edit_distance first second =
     (let m = length first + 1;
          n = length second + 1;
          distances = replicate m (replicate n 0)
      in Option.bind (fill_first_column m 0 distances) (\<lambda>d1.
         Option.bind (fill_first_row n 0 d1) (\<lambda>d2.
         Option.bind (fill_table first second m n 1 d2) (\<lambda>d3.
         Some (d3 ! (m - 1) ! (n - 1))))))"

subsection \<open>Lookup\<close>

text \<open>
  \<^verbatim>\<open>suggest_names\<close>: the first loop collects the names at distance below 4, the second
  prints them, with \<^verbatim>\<open>first\<close> telling whether \<^verbatim>\<open>" or"\<close> comes before the name.
\<close>

fun collect_suggestions ::
  "('c, 'm) RegisteredFormat list \<Rightarrow> string \<Rightarrow> string list \<Rightarrow> string list option" where
  "collect_suggestions [] nm suggestions = Some suggestions"
| "collect_suggestions (other # rest) nm suggestions =
     Option.bind (edit_distance nm (name (info other)))
       (\<lambda>dist. collect_suggestions rest nm
                 (if dist < 4 then suggestions @ [name (info other)] else suggestions))"

fun print_suggestions :: "string list \<Rightarrow> bool \<Rightarrow> string \<Rightarrow> string" where
  "print_suggestions [] first message = message"
| "print_suggestions (suggestion # rest) first message =
     print_suggestions rest False
       ((if \<not> first then message @ '' or'' else message) @ '' '' @ quoted suggestion)"

definition suggest_names :: "('c, 'm) RegisteredFormat list \<Rightarrow> string \<Rightarrow> string option" where
  "suggest_names formats nm =
     Option.bind (collect_suggestions formats nm []) (\<lambda>suggestions.
       let message = ''can not find a format named '' @ quoted nm
       in Some (if suggestions \<noteq> []
                then print_suggestions suggestions True (message @ '', did you mean'') @ ''?''
                else message))"

text \<open>\<^verbatim>\<open>std::vector::at\<close> checks its index.\<close>

definition vector_at :: "'a list \<Rightarrow> nat \<Rightarrow> error + 'a" where
  "vector_at xs idx = (if idx < length xs then Inr (xs ! idx) else Inl StdOutOfRange)"

definition FormatFactory_name ::
  "string \<Rightarrow> ('c, 'm) RegisteredFormat list \<Rightarrow> (error + 'c) option" where
  "FormatFactory_name nm formats =
     (let idx = find_by_name formats nm
      in if idx = SENTINEL_INDEX
         then Option.bind (suggest_names formats nm)
                (\<lambda>suggestions. Some (Inl (FormatError suggestions)))
         else Some (map_sum id creator (vector_at formats idx)))"

definition FormatFactory_memory_stream ::
  "string \<Rightarrow> ('c, 'm) RegisteredFormat list \<Rightarrow> (error + 'm) option" where
  "FormatFactory_memory_stream nm formats =
     (let idx = find_by_name formats nm
      in if idx = SENTINEL_INDEX
         then Option.bind (suggest_names formats nm)
                (\<lambda>suggestions. Some (Inl (FormatError suggestions)))
         else Some (map_sum id memory_stream_creator (vector_at formats idx)))"

definition FormatFactory_extension ::
  "string \<Rightarrow> ('c, 'm) RegisteredFormat list \<Rightarrow> error + 'c" where
  "FormatFactory_extension ext formats =
     (let idx = find_by_extension formats ext
      in if idx = SENTINEL_INDEX
         then Inl (FormatError (''can not find a format associated with the '' @
                                quoted ext @ '' extension''))
         else map_sum id creator (vector_at formats idx))"

subsection \<open>The edit distance of the specification\<close>

text \<open>
  The classic edit distance as the specification words it: the Wagner-Fischer recurrence
  over the prefixes of the two strings, with cost 1 for an insertion, a deletion and a
  substitution. \<open>wagner_fischer a b i j\<close> is the distance between the first \<open>i\<close>
  characters of \<open>a\<close> and the first \<open>j\<close> characters of \<open>b\<close>. The comparison is made
  case-insensitive by mapping both strings through \<open>tolower\<close> first. This definition is
  not taken from the code; the code is compared with it.
\<close>

fun wagner_fischer :: "'a list \<Rightarrow> 'a list \<Rightarrow> nat \<Rightarrow> nat \<Rightarrow> nat" where
  "wagner_fischer a b 0 j = j"
| "wagner_fischer a b (Suc i) 0 = Suc i"
| "wagner_fischer a b (Suc i) (Suc j) =
     min (min (wagner_fischer a b i (Suc j) + 1) (wagner_fischer a b (Suc i) j + 1))
         (wagner_fischer a b i j + (if a ! i = b ! j then 0 else 1))"

definition classic_edit_distance :: "'a list \<Rightarrow> 'a list \<Rightarrow> nat" where
  "classic_edit_distance a b = wagner_fischer a b (length a) (length b)"

definition spec_edit_distance :: "string \<Rightarrow> string \<Rightarrow> nat" where
  "spec_edit_distance a b = classic_edit_distance (map tolower a) (map tolower b)"

text \<open>
  The suggestion list as the specification words it, "did you mean A or B?": the
  names, each between apostrophes, joined by \<open>or\<close>.
\<close>

fun join_or :: "string list \<Rightarrow> string" where
  "join_or [] = []"
| "join_or [s] = quoted s"
| "join_or (s # t # rest) = quoted s @ '' or '' @ join_or (t # rest)"

definition not_found_message :: "string \<Rightarrow> string list \<Rightarrow> string" where
  "not_found_message q suggestions =
     ''can not find a format named '' @ quoted q @
     (if suggestions = [] then [] else '', did you mean '' @ join_or suggestions @ ''?'')"

section \<open>TRR trajectory file\<close>

text \<open>
  The status codes of the xdrfile library, in the order of its enumeration; the
  library's header is not among the sources at hand. \<^verbatim>\<open>check_trr_error\<close> takes the
  status as an \<^verbatim>\<open>int\<close>. The library's table \<^verbatim>\<open>exdr_message\<close> is a parameter.
\<close>

definition exdrOK :: int where "exdrOK = 0"
definition exdrHEADER :: int where "exdrHEADER = 1"
definition exdrSTRING :: int where "exdrSTRING = 2"
definition exdrDOUBLE :: int where "exdrDOUBLE = 3"
definition exdrINT :: int where "exdrINT = 4"
definition exdrFLOAT :: int where "exdrFLOAT = 5"
definition exdrUINT :: int where "exdrUINT = 6"
definition exdr3DX :: int where "exdr3DX = 7"
definition exdrCLOSE :: int where "exdrCLOSE = 8"
definition exdrMAGIC :: int where "exdrMAGIC = 9"
definition exdrNOMEM :: int where "exdrNOMEM = 10"
definition exdrENDOFFILE :: int where "exdrENDOFFILE = 11"
definition exdrFILENOTFOUND :: int where "exdrFILENOTFOUND = 12"
definition exdrNR :: int where "exdrNR = 13"

definition exdr_failures :: "int list" where
  "exdr_failures = [exdrHEADER, exdrSTRING, exdrDOUBLE, exdrINT, exdrFLOAT, exdrUINT, exdr3DX,
                    exdrCLOSE, exdrMAGIC, exdrNOMEM, exdrENDOFFILE, exdrFILENOTFOUND, exdrNR]"

definition check_trr_error :: "(int \<Rightarrow> string) \<Rightarrow> int \<Rightarrow> string \<Rightarrow> error + unit" where
  "check_trr_error exdr_message status function =
     (if status \<in> set exdr_failures
      then Inl (FileError (''error while calling '' @ function @ '' in the TRR library: '' @
                           exdr_message status))
      else if status = exdrOK then Inr ()
      else Inl (FileError (''unknown status code from TRR library: '' @ to_string_int status)))"

text \<open>
  \<^verbatim>\<open>File::Mode\<close>: the constructor tells \<^verbatim>\<open>READ\<close>, \<^verbatim>\<open>WRITE\<close> and the remaining mode
  apart. A \<^verbatim>\<open>TRRFile\<close> holds the native handle, the number of atoms, the number of
  frames and the table of frame offsets (\<^verbatim>\<open>int64_t\<close> entries).
\<close>

datatype Mode = READ | WRITE | APPEND

type_synonym trr_header = "int \<times> nat \<times> 64 word list"

record 'h TRRFile =
  path :: string
  mode :: Mode
  handle :: 'h
  natoms :: int
  nframes :: nat
  offsets :: "64 word list"

text \<open>
  The constructor. The two library calls are parameters: \<open>read_trr_header\<close> takes the
  path and the three members it may write (\<^verbatim>\<open>natoms_\<close>, \<^verbatim>\<open>nframes_\<close>, \<^verbatim>\<open>offsets_\<close>)
  and returns its status with the members as it leaves them; \<open>xdrfile_open\<close> returns
  the handle, or \<open>None\<close> for a null pointer. \<open>hdr0\<close> holds the three members as they
  are before the constructor body runs. The macro \<^verbatim>\<open>CHECK(x)\<close> passes the text of
  \<^verbatim>\<open>x\<close> as the name of the operation.
\<close>

definition read_trr_header_text :: string where
  "read_trr_header_text =
     ''read_trr_header(this->path().c_str(), &natoms_, &nframes_, &offsets_)''"

definition TRRFile_open ::
  "(string \<Rightarrow> string \<Rightarrow> 'h option) \<Rightarrow> string \<Rightarrow> Mode \<Rightarrow> string \<Rightarrow> trr_header
   \<Rightarrow> error + 'h TRRFile" where
  "TRRFile_open xdrfile_open pth md openmode hdr0 =
     (case xdrfile_open pth openmode of
        None \<Rightarrow> Inl (FileError (''could not open the file at '' @ pth))
      | Some h \<Rightarrow> Inr \<lparr>path = pth, mode = md, handle = h, natoms = fst hdr0,
                        nframes = fst (snd hdr0), offsets = snd (snd hdr0)\<rparr>)"

definition TRRFile_new ::
  "(int \<Rightarrow> string) \<Rightarrow> (string \<Rightarrow> trr_header \<Rightarrow> int \<times> trr_header)
   \<Rightarrow> (string \<Rightarrow> string \<Rightarrow> 'h option) \<Rightarrow> trr_header \<Rightarrow> string \<Rightarrow> Mode
   \<Rightarrow> error + 'h TRRFile" where
  "TRRFile_new exdr_message read_trr_header xdrfile_open hdr0 pth md =
     (case md of
        READ \<Rightarrow>
          (case check_trr_error exdr_message (fst (read_trr_header pth hdr0))
                  read_trr_header_text of
             Inl e \<Rightarrow> Inl e
           | Inr u \<Rightarrow> TRRFile_open xdrfile_open pth md ''r'' (snd (read_trr_header pth hdr0)))
      | WRITE \<Rightarrow> TRRFile_open xdrfile_open pth md ''w'' hdr0
      | APPEND \<Rightarrow> TRRFile_open xdrfile_open pth md ''a'' (snd (read_trr_header pth hdr0)))"

text \<open>
  \<^verbatim>\<open>TRRFile::offset\<close> reads \<^verbatim>\<open>offsets_[step]\<close> with no check of \<^verbatim>\<open>step\<close>. Reading
  beyond the table is undefined in C++; this is the result \<open>None\<close>.
\<close>

definition TRRFile_offset :: "'h TRRFile \<Rightarrow> nat \<Rightarrow> 64 word option" where
  "TRRFile_offset f step = (if step < length (offsets f) then Some (offsets f ! step) else None)"

definition TRRFile_nframes :: "'h TRRFile \<Rightarrow> nat" where
  "TRRFile_nframes f = nframes f"

definition TRRFile_natoms :: "'h TRRFile \<Rightarrow> int" where
  "TRRFile_natoms f = natoms f"

definition TRRFile_set_natoms :: "int \<Rightarrow> 'h TRRFile \<Rightarrow> 'h TRRFile" where
  "TRRFile_set_natoms n f = f\<lparr>natoms := n\<rparr>"

section \<open>Auxiliary definitions\<close>

text \<open>
  The shape of the table of \<^verbatim>\<open>edit_distance\<close> (\<open>m\<close> rows of \<open>n\<close> entries) and the
  invariant of its main loops: row 0, the columns before \<open>j\<close> and the first \<open>i\<close>
  entries of column \<open>j\<close> hold the values of the recurrence.
\<close>

definition table_shape :: "nat \<Rightarrow> nat \<Rightarrow> table \<Rightarrow> bool" where
  "table_shape m n d \<longleftrightarrow> length d = m \<and> (\<forall>r<m. length (d ! r) = n)"

definition filled :: "char list \<Rightarrow> char list \<Rightarrow> nat \<Rightarrow> nat \<Rightarrow> table \<Rightarrow> nat \<Rightarrow> nat \<Rightarrow> bool" where
  "filled a b m n d j i \<longleftrightarrow>
     table_shape m n d \<and>
     (\<forall>r<m. \<forall>c<n. (r = 0 \<or> c < j \<or> (c = j \<and> r < i)) \<longrightarrow> d ! r ! c = wagner_fischer a b r c)"

text \<open>A registry holding the one format XYZ, for the examples.\<close>

definition xyz_info :: FormatInfo where
  "xyz_info = \<lparr>name = ''XYZ'', extension = ''.xyz'', description = ''XYZ text format''\<rparr>"

definition xyz_registry :: "(nat, nat) RegisteredFormat list" where
  "xyz_registry = [\<lparr>info = xyz_info, creator = 0, memory_stream_creator = 0\<rparr>]"

text \<open>
  An environment for the examples about the TRR constructor: a message table, a header
  read that reports a missing file and leaves the members alone, one that returns a
  status outside the enumeration, one that succeeds, and an \<^verbatim>\<open>xdrfile_open\<close> that succeeds.
\<close>

definition example_messages :: "int \<Rightarrow> string" where
  "example_messages status =
     [''OK'', ''Header'', ''String'', ''Double precision'', ''Integer'', ''Float'',
      ''Unsigned integer'', ''Compressed 3D coordinate'', ''Closing file'', ''Magic number'',
      ''Not enough memory'', ''End of file'', ''File not found'', []] ! nat status"

definition header_not_found :: "string \<Rightarrow> trr_header \<Rightarrow> int \<times> trr_header" where
  "header_not_found pth hdr = (exdrFILENOTFOUND, hdr)"

definition header_unknown :: "string \<Rightarrow> trr_header \<Rightarrow> int \<times> trr_header" where
  "header_unknown pth hdr = (- 1, hdr)"

definition header_found :: "string \<Rightarrow> trr_header \<Rightarrow> int \<times> trr_header" where
  "header_found pth hdr = (exdrOK, (3, 2, [0, 144]))"

definition open_succeeds :: "string \<Rightarrow> string \<Rightarrow> nat option" where
  "open_succeeds pth openmode = Some 1"

section \<open>Properties of the topology\<close>

text \<open>
  What the two loops of the topology compute: the check of \<^verbatim>\<open>resize\<close> finds a bond
  with an index that is too large if there is one, and the loop of \<^verbatim>\<open>remove\<close> keeps
  the bonds that do not touch \<open>idx\<close>.
\<close>

lemma resize_check_None:
  "resize_check n bs = None \<longleftrightarrow> \<not> list_ex (\<lambda>b. fst b \<ge> n \<or> snd b \<ge> n) bs"
  by (induction bs) auto

lemma resize_check_Some:
  "resize_check n bs = Some e \<Longrightarrow> \<exists>msg. e = Error msg"
  by (induction bs) (auto split: if_splits)

lemma bonds_remove_loop:
  "bonds (remove_loop idx bs c) =
     filter (\<lambda>b. \<not> list_ex (\<lambda>r. (fst r = idx \<or> snd r = idx) \<and> same_bond b r) bs) (bonds c)"
proof (induction bs arbitrary: c)
  case Nil
  show ?case by simp
next
  case (Cons r rs)
  show ?case
    by (cases r) (auto simp: Cons.IH Connectivity_remove_bond_def intro!: filter_cong)
qed

lemma remove_loop_self:
  "bonds (remove_loop idx (bonds c) c) = filter (\<lambda>b. fst b \<noteq> idx \<and> snd b \<noteq> idx) (bonds c)"
proof -
  have "\<And>b. b \<in> set (bonds c) \<Longrightarrow>
          (\<not> list_ex (\<lambda>r. (fst r = idx \<or> snd r = idx) \<and> same_bond b r) (bonds c))
          = (fst b \<noteq> idx \<and> snd b \<noteq> idx)"
  proof -
    fix b assume b: "b \<in> set (bonds c)"
    obtain x y where xy: "b = (x, y)" by (cases b)
    show "(\<not> list_ex (\<lambda>r. (fst r = idx \<or> snd r = idx) \<and> same_bond b r) (bonds c))
          = (fst b \<noteq> idx \<and> snd b \<noteq> idx)"
    proof
      assume n: "\<not> list_ex (\<lambda>r. (fst r = idx \<or> snd r = idx) \<and> same_bond b r) (bonds c)"
      have "same_bond b b" by (simp add: xy)
      with n b show "fst b \<noteq> idx \<and> snd b \<noteq> idx"
        by (auto simp: list_ex_iff)
    next
      assume "fst b \<noteq> idx \<and> snd b \<noteq> idx"
      then show "\<not> list_ex (\<lambda>r. (fst r = idx \<or> snd r = idx) \<and> same_bond b r) (bonds c)"
        by (auto simp: list_ex_iff xy)
    qed
  qed
  then show ?thesis
    by (simp add: bonds_remove_loop cong: filter_cong)
qed


text \<open>
  Claim C1, as the code has it. \<^verbatim>\<open>resize(n)\<close> fails with an \<^verbatim>\<open>Error\<close> (the invariant
  error) whenever some bond has an index \<open>\<ge> n\<close>, in particular when a bond refers to an
  index \<open>k\<close> and \<open>n \<le> k\<close>, and the topology after the failed call is the topology
  before it. When no bond has an index \<open>\<ge> n\<close> and \<open>n\<close> is at most the \<^verbatim>\<open>max_size()\<close>
  of the atom vector, the call succeeds, the atom sequence has length \<open>n\<close>, its old atoms
  below \<open>n\<close> are kept, every new slot holds the undefined atom, and the connectivity is
  untouched. When no bond has an index \<open>\<ge> n\<close> and \<open>n\<close> exceeds \<^verbatim>\<open>max_size()\<close>, the call
  fails with \<^verbatim>\<open>std::length_error\<close> and the topology is unchanged.
\<close>

theorem Topology_resize_spec:
  fixes T :: "'a Topology"
  shows "((\<exists>b \<in> set (bonds (connect T)). fst b \<ge> n \<or> snd b \<ge> n) \<longrightarrow>
            (\<exists>msg. Topology_resize max_size u n T = (Inl (Error msg), T)))
       \<and> ((\<exists>b \<in> set (bonds (connect T)). fst b = k \<or> snd b = k) \<and> n \<le> k \<longrightarrow>
            (\<exists>msg. Topology_resize max_size u n T = (Inl (Error msg), T)))
       \<and> (\<not> (\<exists>b \<in> set (bonds (connect T)). fst b \<ge> n \<or> snd b \<ge> n) \<and> n \<le> max_size \<longrightarrow>
            Topology_resize max_size u n T =
              (Inr (), T\<lparr>atoms := take n (atoms T) @ replicate (n - length (atoms T)) u\<rparr>)
          \<and> length (atoms (snd (Topology_resize max_size u n T))) = n
          \<and> (\<forall>i<n. atoms (snd (Topology_resize max_size u n T)) ! i =
                     (if i < length (atoms T) then atoms T ! i else u))
          \<and> connect (snd (Topology_resize max_size u n T)) = connect T)
       \<and> (\<not> (\<exists>b \<in> set (bonds (connect T)). fst b \<ge> n \<or> snd b \<ge> n) \<and> max_size < n \<longrightarrow>
            Topology_resize max_size u n T = (Inl StdLengthError, T))"
proof -
  let ?bad = "\<exists>b \<in> set (bonds (connect T)). fst b \<ge> n \<or> snd b \<ge> n"
  have fail: "\<exists>msg. Topology_resize max_size u n T = (Inl (Error msg), T)" if ?bad
  proof -
    from that have "resize_check n (Topology_bonds T) \<noteq> None"
      by (simp add: resize_check_None Topology_bonds_def Connectivity_bonds_def list_ex_iff)
    then obtain e where e: "resize_check n (Topology_bonds T) = Some e" by auto
    then obtain msg where "e = Error msg" using resize_check_Some by blast
    with e show ?thesis by (simp add: Topology_resize_def)
  qed
  have none: "resize_check n (Topology_bonds T) = None" if "\<not> ?bad"
    using that
    by (simp add: resize_check_None Topology_bonds_def Connectivity_bonds_def list_ex_iff)
  have ok: "Topology_resize max_size u n T =
              (Inr (), T\<lparr>atoms := take n (atoms T) @ replicate (n - length (atoms T)) u\<rparr>)"
    if "\<not> ?bad" and "n \<le> max_size"
    using none [OF that(1)] that(2) by (simp add: Topology_resize_def vector_resize_def)
  have big: "Topology_resize max_size u n T = (Inl StdLengthError, T)"
    if "\<not> ?bad" and "max_size < n"
    using none [OF that(1)] that(2) by (simp add: Topology_resize_def vector_resize_def)
  have "(\<exists>b \<in> set (bonds (connect T)). fst b = k \<or> snd b = k) \<and> n \<le> k \<Longrightarrow> ?bad"
    by auto
  moreover have "\<forall>i<n. (take n (atoms T) @ replicate (n - length (atoms T)) u) ! i =
                     (if i < length (atoms T) then atoms T ! i else u)"
    by (auto simp: nth_append)
  ultimately show ?thesis using fail ok big by auto
qed

theorem Topology_resize_spec_witness:
  "(\<exists>msg. Topology_resize 9223372036854775807 ''X'' 1
             \<lparr>atoms = [''C'', ''H''], connect = \<lparr>bonds = [(0, 1)]\<rparr>\<rparr>
            = (Inl (Error msg), \<lparr>atoms = [''C'', ''H''], connect = \<lparr>bonds = [(0, 1)]\<rparr>\<rparr>))
   \<and> (3::nat) \<le> 9223372036854775807
   \<and> Topology_resize 9223372036854775807 ''X'' 3
        \<lparr>atoms = [''C'', ''H''], connect = \<lparr>bonds = [(0, 1)]\<rparr>\<rparr>
       = (Inr (), \<lparr>atoms = [''C'', ''H'', ''X''], connect = \<lparr>bonds = [(0, 1)]\<rparr>\<rparr>)
   \<and> (9223372036854775807::nat) < 9223372036854775808
   \<and> Topology_resize 9223372036854775807 ''X'' 9223372036854775808
        \<lparr>atoms = [''C'', ''H''], connect = \<lparr>bonds = [(0, 1)]\<rparr>\<rparr>
       = (Inl StdLengthError, \<lparr>atoms = [''C'', ''H''], connect = \<lparr>bonds = [(0, 1)]\<rparr>\<rparr>)"
  using Topology_resize_spec
          [where T = "\<lparr>atoms = [''C'', ''H''], connect = \<lparr>bonds = [(0, 1)]\<rparr>\<rparr>"
             and n = 1 and u = "''X''" and k = 1 and max_size = 9223372036854775807]
        Topology_resize_spec
          [where T = "\<lparr>atoms = [''C'', ''H''], connect = \<lparr>bonds = [(0, 1)]\<rparr>\<rparr>"
             and n = 3 and u = "''X''" and k = 1 and max_size = 9223372036854775807]
        Topology_resize_spec
          [where T = "\<lparr>atoms = [''C'', ''H''], connect = \<lparr>bonds = [(0, 1)]\<rparr>\<rparr>"
             and n = 9223372036854775808 and u = "''X''" and k = 1
             and max_size = 9223372036854775807]
  by simp

text \<open>
  With no bond at all and the largest \<^verbatim>\<open>size_t\<close> as the requested size, which exceeds
  every \<^verbatim>\<open>max_size()\<close>, the call does not grow the atom sequence: it fails with
  \<^verbatim>\<open>std::length_error\<close>.
\<close>

theorem Topology_resize_beyond_max_size:
  "Topology_resize 9223372036854775807 ''X'' 18446744073709551615
     \<lparr>atoms = [''C'', ''H''], connect = \<lparr>bonds = []\<rparr>\<rparr>
   = (Inl StdLengthError, \<lparr>atoms = [''C'', ''H''], connect = \<lparr>bonds = []\<rparr>\<rparr>)"
  by (simp add: Topology_resize_def vector_resize_def Topology_bonds_def Connectivity_bonds_def)

text \<open>
  Claim C6. On the topology with three atoms and the bonds (0,1) and (1,2),
  \<^verbatim>\<open>remove(1)\<close> leaves two atoms and no bond.
\<close>

theorem Topology_remove_middle:
  "Topology_remove 1 \<lparr>atoms = [a0, a1, a2], connect = \<lparr>bonds = [(0, 1), (1, 2)]\<rparr>\<rparr>
     = Some \<lparr>atoms = [a0, a2], connect = \<lparr>bonds = []\<rparr>\<rparr>"
  by (simp add: Topology_remove_def vector_erase_def Connectivity_bonds_def
        Connectivity_remove_bond_def)

text \<open>
  Claim C7. For a valid index \<open>idx\<close>, \<^verbatim>\<open>remove(idx)\<close> deletes the atom at \<open>idx\<close>, the
  atoms behind it moving down by one, and deletes exactly the bonds with \<open>idx\<close> as an
  endpoint: the bonds left are the bonds with both endpoints different from \<open>idx\<close>, in
  their order and with their indices as they were (no re-indexing).
\<close>

theorem Topology_remove_spec:
  fixes T :: "'a Topology"
  assumes "idx < length (atoms T)"
  shows "\<exists>T'. Topology_remove idx T = Some T'
           \<and> atoms T' = take idx (atoms T) @ drop (Suc idx) (atoms T)
           \<and> length (atoms T') = length (atoms T) - 1
           \<and> (\<forall>i<idx. atoms T' ! i = atoms T ! i)
           \<and> (\<forall>i. idx \<le> i \<and> i < length (atoms T) - 1 \<longrightarrow> atoms T' ! i = atoms T ! Suc i)
           \<and> bonds (connect T') =
               filter (\<lambda>b. fst b \<noteq> idx \<and> snd b \<noteq> idx) (bonds (connect T))"
proof -
  let ?as = "take idx (atoms T) @ drop (Suc idx) (atoms T)"
  let ?T' = "T\<lparr>atoms := ?as, connect := remove_loop idx (bonds (connect T)) (connect T)\<rparr>"
  have r: "Topology_remove idx T = Some ?T'"
    using assms by (simp add: Topology_remove_def vector_erase_def Connectivity_bonds_def)
  have len: "length ?as = length (atoms T) - 1" using assms by simp
  have lo: "\<forall>i<idx. ?as ! i = atoms T ! i" using assms by (simp add: nth_append)
  have hi: "\<forall>i. idx \<le> i \<and> i < length (atoms T) - 1 \<longrightarrow> ?as ! i = atoms T ! Suc i"
    using assms by (auto simp: nth_append min_def)
  have bs: "bonds (connect ?T') = filter (\<lambda>b. fst b \<noteq> idx \<and> snd b \<noteq> idx) (bonds (connect T))"
    by (simp add: remove_loop_self)
  show ?thesis using r len lo hi bs by simp
qed

theorem Topology_remove_spec_witness:
  "(0::nat) < length (atoms \<lparr>atoms = [''O'', ''H'', ''C'', ''N''],
                               connect = \<lparr>bonds = [(0, 1), (2, 3)]\<rparr>\<rparr>)
   \<and> (\<exists>T'. Topology_remove 0 \<lparr>atoms = [''O'', ''H'', ''C'', ''N''],
                                connect = \<lparr>bonds = [(0, 1), (2, 3)]\<rparr>\<rparr> = Some T'
           \<and> atoms T' = [''H'', ''C'', ''N'']
           \<and> bonds (connect T') = [(2, 3)])"
proof -
  let ?T = "\<lparr>atoms = [''O'', ''H'', ''C'', ''N''], connect = \<lparr>bonds = [(0, 1), (2, 3)]\<rparr>\<rparr>"
  have h: "0 < length (atoms ?T)" by simp
  from Topology_remove_spec [OF h]
  obtain T' where "Topology_remove 0 ?T = Some T'"
     "atoms T' = take 0 (atoms ?T) @ drop (Suc 0) (atoms ?T)"
     "bonds (connect T') = filter (\<lambda>b. fst b \<noteq> 0 \<and> snd b \<noteq> 0) (bonds (connect ?T))"
    by blast
  then have "Topology_remove 0 ?T = Some T' \<and> atoms T' = [''H'', ''C'', ''N'']
      \<and> bonds (connect T') = [(2, 3)]"
    by simp
  then show ?thesis using h by blast
qed


section \<open>Properties of the registry\<close>

text \<open>
  The two searches return the index of the first entry with the name (the extension)
  looked for, and \<open>SENTINEL_INDEX\<close> when there is none. An index found is below the
  size of the vector, so it differs from the sentinel as long as the size fits
  \<^verbatim>\<open>size_t\<close>.
\<close>

lemma find_append_None: "find P xs = None \<Longrightarrow> find P (xs @ ys) = find P ys"
  by (induction xs) (auto split: if_splits)

lemma find_by_name_loop_None:
  "find (\<lambda>f. name (info f) = nm) (drop i formats) = None \<Longrightarrow>
   find_by_name_loop formats nm i = SENTINEL_INDEX"
proof (induction formats nm i rule: find_by_name_loop.induct)
  case (1 formats nm i)
  show ?case
  proof (cases "i < length formats")
    case True
    then have d: "drop i formats = formats ! i # drop (Suc i) formats"
      by (simp add: Cons_nth_drop_Suc)
    with "1.prems" have ne: "name (info (formats ! i)) \<noteq> nm"
      and rest: "find (\<lambda>f. name (info f) = nm) (drop (i + 1) formats) = None"
      by (auto split: if_splits)
    from "1.IH" [OF True ne rest] True ne show ?thesis
      by (subst find_by_name_loop.simps) simp
  next
    case False
    then show ?thesis by (subst find_by_name_loop.simps) simp
  qed
qed

lemma find_by_name_loop_Some:
  "find (\<lambda>f. name (info f) = nm) (drop i formats) = Some f \<Longrightarrow>
   find_by_name_loop formats nm i < length formats \<and>
   formats ! find_by_name_loop formats nm i = f"
proof (induction formats nm i rule: find_by_name_loop.induct)
  case (1 formats nm i)
  show ?case
  proof (cases "i < length formats")
    case True
    then have d: "drop i formats = formats ! i # drop (Suc i) formats"
      by (simp add: Cons_nth_drop_Suc)
    show ?thesis
    proof (cases "name (info (formats ! i)) = nm")
      case eq: True
      with "1.prems" d have "f = formats ! i" by simp
      with True eq show ?thesis by (subst (1 2) find_by_name_loop.simps) simp
    next
      case ne: False
      with "1.prems" d have "find (\<lambda>f. name (info f) = nm) (drop (i + 1) formats) = Some f"
        by simp
      from "1.IH" [OF True ne this] True ne show ?thesis
        by (subst (1 2) find_by_name_loop.simps) simp
    qed
  next
    case False
    with "1.prems" show ?thesis by simp
  qed
qed

lemma find_by_name_absent:
  "nm \<notin> set (map (name \<circ> info) formats) \<Longrightarrow> find_by_name formats nm = SENTINEL_INDEX"
  unfolding find_by_name_def
  by (rule find_by_name_loop_None) (auto simp: find_None_iff)

lemma find_by_name_present:
  assumes "nm \<in> set (map (name \<circ> info) formats)" and "length formats \<le> SENTINEL_INDEX"
  shows "find_by_name formats nm \<noteq> SENTINEL_INDEX"
proof -
  from assms(1) obtain f where "find (\<lambda>f. name (info f) = nm) (drop 0 formats) = Some f"
    by (cases "find (\<lambda>f. name (info f) = nm) formats") (auto simp: find_None_iff)
  from find_by_name_loop_Some [OF this] assms(2) show ?thesis
    by (simp add: find_by_name_def)
qed

lemma find_by_name_find:
  assumes "find (\<lambda>f. name (info f) = nm) formats = Some f" and "length formats \<le> SENTINEL_INDEX"
  shows "find_by_name formats nm \<noteq> SENTINEL_INDEX \<and> vector_at formats (find_by_name formats nm) = Inr f"
proof -
  from assms(1) have "find (\<lambda>f. name (info f) = nm) (drop 0 formats) = Some f" by simp
  from find_by_name_loop_Some [OF this] assms(2) show ?thesis
    by (auto simp: find_by_name_def vector_at_def)
qed

lemma find_by_extension_loop_None:
  "find (\<lambda>f. extension (info f) = ext) (drop i formats) = None \<Longrightarrow>
   find_by_extension_loop formats ext i = SENTINEL_INDEX"
proof (induction formats ext i rule: find_by_extension_loop.induct)
  case (1 formats ext i)
  show ?case
  proof (cases "i < length formats")
    case True
    then have d: "drop i formats = formats ! i # drop (Suc i) formats"
      by (simp add: Cons_nth_drop_Suc)
    with "1.prems" have ne: "extension (info (formats ! i)) \<noteq> ext"
      and rest: "find (\<lambda>f. extension (info f) = ext) (drop (i + 1) formats) = None"
      by (auto split: if_splits)
    from "1.IH" [OF True ne rest] True ne show ?thesis
      by (subst find_by_extension_loop.simps) simp
  next
    case False
    then show ?thesis by (subst find_by_extension_loop.simps) simp
  qed
qed

lemma find_by_extension_loop_Some:
  "find (\<lambda>f. extension (info f) = ext) (drop i formats) = Some f \<Longrightarrow>
   find_by_extension_loop formats ext i < length formats"
proof (induction formats ext i rule: find_by_extension_loop.induct)
  case (1 formats ext i)
  show ?case
  proof (cases "i < length formats")
    case True
    then have d: "drop i formats = formats ! i # drop (Suc i) formats"
      by (simp add: Cons_nth_drop_Suc)
    show ?thesis
    proof (cases "extension (info (formats ! i)) = ext")
      case eq: True
      with True show ?thesis by (subst find_by_extension_loop.simps) simp
    next
      case ne: False
      with "1.prems" d have "find (\<lambda>f. extension (info f) = ext) (drop (i + 1) formats) = Some f"
        by simp
      from "1.IH" [OF True ne this] True ne show ?thesis
        by (subst find_by_extension_loop.simps) simp
    qed
  next
    case False
    with "1.prems" show ?thesis by simp
  qed
qed

lemma find_by_extension_absent:
  "ext \<notin> set (map (extension \<circ> info) formats) \<Longrightarrow> find_by_extension formats ext = SENTINEL_INDEX"
  unfolding find_by_extension_def
  by (rule find_by_extension_loop_None) (auto simp: find_None_iff)

lemma find_by_extension_present:
  assumes "ext \<in> set (map (extension \<circ> info) formats)" and "length formats \<le> SENTINEL_INDEX"
  shows "find_by_extension formats ext \<noteq> SENTINEL_INDEX"
proof -
  from assms(1) obtain f where "find (\<lambda>f. extension (info f) = ext) (drop 0 formats) = Some f"
    by (cases "find (\<lambda>f. extension (info f) = ext) formats") (auto simp: find_None_iff)
  from find_by_extension_loop_Some [OF this] assms(2) show ?thesis
    by (simp add: find_by_extension_def)
qed

text \<open>
  Claim C2. On a registry whose size fits \<^verbatim>\<open>size_t\<close>, \<^verbatim>\<open>register_format\<close> fails with a
  \<^verbatim>\<open>FormatError\<close> when the name is empty, when the name is the name of a registered
  format, or when the extension is not empty and is the extension of a registered
  format, and the registry after the failed call is the registry before it. Otherwise the
  call succeeds and appends the new entry at the end, so that the listing is the old
  listing followed by the new format.
\<close>

theorem register_format_spec:
  assumes "length formats \<le> SENTINEL_INDEX"
  shows "((name finfo = []
            \<or> name finfo \<in> set (map (name \<circ> info) formats)
            \<or> (extension finfo \<noteq> [] \<and> extension finfo \<in> set (map (extension \<circ> info) formats)))
          \<longrightarrow> (\<exists>msg. FormatFactory_register_format finfo c ms formats
                        = (Inl (FormatError msg), formats)))
       \<and> (\<not> (name finfo = []
            \<or> name finfo \<in> set (map (name \<circ> info) formats)
            \<or> (extension finfo \<noteq> [] \<and> extension finfo \<in> set (map (extension \<circ> info) formats)))
          \<longrightarrow> FormatFactory_register_format finfo c ms formats
                 = (Inr (), formats @ [\<lparr>info = finfo, creator = c, memory_stream_creator = ms\<rparr>])
              \<and> FormatFactory_formats
                   (formats @ [\<lparr>info = finfo, creator = c, memory_stream_creator = ms\<rparr>])
                 = FormatFactory_formats formats @ [finfo])"
proof (intro conjI impI)
  assume bad: "name finfo = []
            \<or> name finfo \<in> set (map (name \<circ> info) formats)
            \<or> (extension finfo \<noteq> [] \<and> extension finfo \<in> set (map (extension \<circ> info) formats))"
  show "\<exists>msg. FormatFactory_register_format finfo c ms formats = (Inl (FormatError msg), formats)"
  proof (cases "name finfo = []")
    case True
    then show ?thesis by (simp add: FormatFactory_register_format_def)
  next
    case nonempty: False
    show ?thesis
    proof (cases "find_by_name formats (name finfo) \<noteq> SENTINEL_INDEX")
      case True
      with nonempty show ?thesis by (simp add: FormatFactory_register_format_def)
    next
      case False
      then have "name finfo \<notin> set (map (name \<circ> info) formats)"
        using find_by_name_present [OF _ assms] by blast
      with bad nonempty have e: "extension finfo \<noteq> []"
          "extension finfo \<in> set (map (extension \<circ> info) formats)"
        by auto
      from find_by_extension_present [OF e(2) assms] e(1) nonempty False
      show ?thesis by (simp add: FormatFactory_register_format_def)
    qed
  qed
next
  assume ok: "\<not> (name finfo = []
            \<or> name finfo \<in> set (map (name \<circ> info) formats)
            \<or> (extension finfo \<noteq> [] \<and> extension finfo \<in> set (map (extension \<circ> info) formats)))"
  then have n: "find_by_name formats (name finfo) = SENTINEL_INDEX"
    by (intro find_by_name_absent) simp
  from ok have "extension finfo = [] \<or> find_by_extension formats (extension finfo) = SENTINEL_INDEX"
    using find_by_extension_absent [of "extension finfo" formats] by auto
  with ok n show "FormatFactory_register_format finfo c ms formats
      = (Inr (), formats @ [\<lparr>info = finfo, creator = c, memory_stream_creator = ms\<rparr>])"
    by (auto simp: FormatFactory_register_format_def)
next
  show "FormatFactory_formats
          (formats @ [\<lparr>info = finfo, creator = c, memory_stream_creator = ms\<rparr>])
        = FormatFactory_formats formats @ [finfo]"
    by (simp add: FormatFactory_formats_def)
qed


theorem register_format_spec_witness:
  "length xyz_registry \<le> SENTINEL_INDEX
   \<and> (\<exists>msg. FormatFactory_register_format
               \<lparr>name = [], extension = ''.new'', description = []\<rparr> 1 1 xyz_registry
             = (Inl (FormatError msg), xyz_registry))
   \<and> (\<exists>msg. FormatFactory_register_format
               \<lparr>name = ''XYZ'', extension = ''.new'', description = []\<rparr> 1 1 xyz_registry
             = (Inl (FormatError msg), xyz_registry))
   \<and> (\<exists>msg. FormatFactory_register_format
               \<lparr>name = ''NEW'', extension = ''.xyz'', description = []\<rparr> 1 1 xyz_registry
             = (Inl (FormatError msg), xyz_registry))
   \<and> FormatFactory_register_format
        \<lparr>name = ''PDB'', extension = ''.pdb'', description = []\<rparr> 1 1 xyz_registry
      = (Inr (), xyz_registry @
           [\<lparr>info = \<lparr>name = ''PDB'', extension = ''.pdb'', description = []\<rparr>,
             creator = 1, memory_stream_creator = 1\<rparr>])"
proof -
  have h: "length xyz_registry \<le> SENTINEL_INDEX"
    by (simp add: xyz_registry_def SENTINEL_INDEX_def)
  show ?thesis
    using h
      register_format_spec [OF h, where finfo = "\<lparr>name = [], extension = ''.new'', description = []\<rparr>"
         and c = 1 and ms = 1]
      register_format_spec [OF h, where finfo = "\<lparr>name = ''XYZ'', extension = ''.new'', description = []\<rparr>"
         and c = 1 and ms = 1]
      register_format_spec [OF h, where finfo = "\<lparr>name = ''NEW'', extension = ''.xyz'', description = []\<rparr>"
         and c = 1 and ms = 1]
      register_format_spec [OF h, where finfo = "\<lparr>name = ''PDB'', extension = ''.pdb'', description = []\<rparr>"
         and c = 1 and ms = 1]
    by (simp add: xyz_registry_def xyz_info_def)
qed

text \<open>
  Claim C8. Registering a format with a non-empty name that collides with no registered
  format, without an in-memory creator, succeeds; the in-memory creator stored with
  the entry fails on every call with the \<^verbatim>\<open>FormatError\<close> "in-memory IO is not supported
  for the 'name' format"; and looking the name up afterwards returns this creator.
\<close>

theorem register_without_memory_creator:
  fixes formats :: "('c, 'b \<Rightarrow> 'md \<Rightarrow> 'cp \<Rightarrow> error + 'f) RegisteredFormat list"
  assumes "name finfo \<noteq> []"
    and "name finfo \<notin> set (map (name \<circ> info) formats)"
    and "extension finfo = [] \<or> extension finfo \<notin> set (map (extension \<circ> info) formats)"
  shows "\<exists>entry. FormatFactory_register_format2 finfo c formats = (Inr (), formats @ [entry])
           \<and> info entry = finfo \<and> creator entry = c
           \<and> (\<forall>buffer md compression.
                 memory_stream_creator entry buffer md compression =
                   Inl (FormatError (''in-memory IO is not supported for the '' @
                                     quoted (name finfo) @ '' format'')))
           \<and> (length formats < SENTINEL_INDEX \<longrightarrow>
                 FormatFactory_memory_stream (name finfo) (formats @ [entry]) =
                   Some (Inr (memory_stream_creator entry)))"
proof -
  let ?entry = "\<lparr>info = finfo, creator = c,
                  memory_stream_creator = (no_memory_stream finfo :: 'b \<Rightarrow> 'md \<Rightarrow> 'cp \<Rightarrow> error + 'f)\<rparr>"
  have n: "find_by_name formats (name finfo) = SENTINEL_INDEX"
    using assms(2) by (rule find_by_name_absent)
  have "extension finfo = [] \<or> find_by_extension formats (extension finfo) = SENTINEL_INDEX"
    using assms(3) find_by_extension_absent [of "extension finfo" formats] by auto
  with n assms(1) have reg: "FormatFactory_register_format2 finfo c formats = (Inr (), formats @ [?entry])"
    by (auto simp: FormatFactory_register_format2_def FormatFactory_register_format_def)
  have look: "FormatFactory_memory_stream (name finfo) (formats @ [?entry]) =
                Some (Inr (memory_stream_creator ?entry))"
    if "length formats < SENTINEL_INDEX"
  proof -
    have "find (\<lambda>f. name (info f) = name finfo) formats = None"
      using assms(2) by (force simp: find_None_iff image_iff)
    then have "find (\<lambda>f. name (info f) = name finfo) (formats @ [?entry]) = Some ?entry"
      by (simp add: find_append_None)
    moreover have "length (formats @ [?entry]) \<le> SENTINEL_INDEX" using that by simp
    ultimately have "find_by_name (formats @ [?entry]) (name finfo) \<noteq> SENTINEL_INDEX
        \<and> vector_at (formats @ [?entry]) (find_by_name (formats @ [?entry]) (name finfo)) = Inr ?entry"
      by (rule find_by_name_find)
    then show ?thesis by (simp add: FormatFactory_memory_stream_def)
  qed
  show ?thesis
    using reg look by (intro exI [of _ ?entry]) (simp add: no_memory_stream_def)
qed

theorem register_without_memory_creator_witness:
  "name \<lparr>name = ''PDB'', extension = ''.pdb'', description = []\<rparr> \<noteq> []
   \<and> (\<exists>entry. FormatFactory_register_format2
                 \<lparr>name = ''PDB'', extension = ''.pdb'', description = []\<rparr> (1::nat)
                 ([] :: (nat, nat \<Rightarrow> Mode \<Rightarrow> nat \<Rightarrow> error + nat) RegisteredFormat list)
               = (Inr (), [entry])
             \<and> memory_stream_creator entry 0 READ 0 =
                 Inl (FormatError (''in-memory IO is not supported for the '' @
                                   quoted ''PDB'' @ '' format''))
             \<and> FormatFactory_memory_stream ''PDB'' [entry] = Some (Inr (memory_stream_creator entry)))"
proof -
  let ?i = "\<lparr>name = ''PDB'', extension = ''.pdb'', description = []\<rparr>"
  have h1: "name ?i \<noteq> []" by simp
  have h2: "name ?i \<notin> set (map (name \<circ> info)
      ([] :: (nat, nat \<Rightarrow> Mode \<Rightarrow> nat \<Rightarrow> error + nat) RegisteredFormat list))" by simp
  have h3: "extension ?i = [] \<or> extension ?i \<notin> set (map (extension \<circ> info)
      ([] :: (nat, nat \<Rightarrow> Mode \<Rightarrow> nat \<Rightarrow> error + nat) RegisteredFormat list))" by simp
  from register_without_memory_creator [OF h1 h2 h3, of "1::nat"]
  obtain entry where e: "FormatFactory_register_format2 ?i (1::nat)
        ([] :: (nat, nat \<Rightarrow> Mode \<Rightarrow> nat \<Rightarrow> error + nat) RegisteredFormat list)
        = (Inr (), [] @ [entry])"
    "\<forall>buffer md compression. memory_stream_creator entry buffer md compression =
        Inl (FormatError (''in-memory IO is not supported for the '' @
                          quoted (name ?i) @ '' format''))"
    "length ([] :: (nat, nat \<Rightarrow> Mode \<Rightarrow> nat \<Rightarrow> error + nat) RegisteredFormat list)
       < SENTINEL_INDEX \<longrightarrow>
     FormatFactory_memory_stream (name ?i) ([] @ [entry]) = Some (Inr (memory_stream_creator entry))"
    by blast
  from e(2) have "memory_stream_creator entry 0 READ 0 =
      Inl (FormatError (''in-memory IO is not supported for the '' @ quoted ''PDB'' @ '' format''))"
    by simp
  moreover from e(3) have "FormatFactory_memory_stream ''PDB'' [entry] =
      Some (Inr (memory_stream_creator entry))"
    by (simp add: SENTINEL_INDEX_def)
  moreover from e(1) have "FormatFactory_register_format2 ?i (1::nat)
        ([] :: (nat, nat \<Rightarrow> Mode \<Rightarrow> nat \<Rightarrow> error + nat) RegisteredFormat list)
        = (Inr (), [entry])"
    by simp
  ultimately show ?thesis using h1 by blast
qed



section \<open>Properties of the edit distance\<close>

subsection \<open>The recurrence\<close>

text \<open>
  Symmetry, the three one-step bounds (deletion, insertion, substitution), their
  converses, and the triangle inequality of the recurrence of the specification.
\<close>

lemma wf_0_right [simp]: "wagner_fischer a b i 0 = i"
  by (cases i) auto

lemma wf_sym: "wagner_fischer a b i j = wagner_fischer b a j i"
  by (induction a b i j rule: wagner_fischer.induct) (auto simp: min.commute eq_commute)

lemma wf_del: "wagner_fischer a b (Suc i) j \<le> wagner_fischer a b i j + 1"
  by (cases j) auto

lemma wf_ins: "wagner_fischer a b i (Suc j) \<le> wagner_fischer a b i j + 1"
  by (cases i) auto

lemma wf_sub: "wagner_fischer a b (Suc i) (Suc j) \<le> wagner_fischer a b i j + (if a ! i = b ! j then 0 else 1)"
  by auto

lemma wf_le_max: "wagner_fischer a b i j \<le> max i j"
proof (induction a b i j rule: wagner_fischer.induct)
  case (3 a b i j)
  have "wagner_fischer a b (Suc i) (Suc j) \<le> wagner_fischer a b i j + 1"
    by auto
  with 3 show ?case by auto
qed auto

lemma wf_undel: "wagner_fischer a b i j \<le> wagner_fischer a b (Suc i) j + 1"
proof (induction j)
  case 0
  show ?case by simp
next
  case (Suc j)
  have "wagner_fischer a b i (Suc j) \<le> wagner_fischer a b i j + 1"
    by (rule wf_ins)
  with Suc show ?case by auto
qed

lemma wf_unins: "wagner_fischer a b i j \<le> wagner_fischer a b i (Suc j) + 1"
  using wf_undel [of b a j i] by (simp add: wf_sym [of a b])

lemma wf_match:
  assumes "a ! i = b ! j"
  shows "wagner_fischer a b (Suc i) (Suc j) = wagner_fischer a b i j"
  using assms wf_undel [of a b i j] wf_unins [of a b i j] wf_ins[of a b i j] wf_del[of a b i j]
    wf_undel [of a b i "Suc j"] wf_unins [of a b "Suc i" j]
  by auto

lemma wf_lower: "k \<le> j + wagner_fischer b c j k"
  by (induction b c j k rule: wagner_fischer.induct) auto

lemma wf_triangle:
  "wagner_fischer a c i k \<le> wagner_fischer a b i j + wagner_fischer b c j k"
proof (induction "i + j + k" arbitrary: i j k rule: less_induct)
  case less
  note IH = less.hyps
  show ?case
  proof (cases j)
    case 0
    have "wagner_fischer a c i k \<le> max i k" by (rule wf_le_max)
    then show ?thesis using 0 by simp
  next
    case j: (Suc j')
    show ?thesis
    proof (cases i)
      case 0
      then show ?thesis using wf_lower [of k j b c] by simp
    next
      case i: (Suc i')
      show ?thesis
      proof (cases k)
        case 0
        then show ?thesis using wf_lower [of i j b a] by (simp add: wf_sym [of a b])
      next
        case k: (Suc k')
        define dab :: nat where "dab = (if a ! i' = b ! j' then 0 else 1)"
        define dbc :: nat where "dbc = (if b ! j' = c ! k' then 0 else 1)"
        define dac :: nat where "dac = (if a ! i' = c ! k' then 0 else 1)"
        have d: "dac \<le> dab + dbc"
          by (auto simp: dab_def dbc_def dac_def)
        have ab: "wagner_fischer a b i j =
            min (min (wagner_fischer a b i' j + 1) (wagner_fischer a b i j' + 1))
                (wagner_fischer a b i' j' + dab)"
          by (simp add: i j dab_def)
        have bc: "wagner_fischer b c j k =
            min (min (wagner_fischer b c j' k + 1) (wagner_fischer b c j k' + 1))
                (wagner_fischer b c j' k' + dbc)"
          by (simp add: j k dbc_def)
        have del: "wagner_fischer a c i k \<le> wagner_fischer a c i' k + 1"
          unfolding i by (rule wf_del)
        have ins: "wagner_fischer a c i k \<le> wagner_fischer a c i k' + 1"
          unfolding k by (rule wf_ins)
        have sub: "wagner_fischer a c i k \<le> wagner_fischer a c i' k' + dac"
          unfolding i k dac_def by (rule wf_sub)
        have h1: "wagner_fischer a c i' k \<le> wagner_fischer a b i' j + wagner_fischer b c j k"
          by (rule IH) (simp add: i)
        have h2: "wagner_fischer a c i k' \<le> wagner_fischer a b i j + wagner_fischer b c j k'"
          by (rule IH) (simp add: k)
        have h3: "wagner_fischer a c i k \<le> wagner_fischer a b i j' + wagner_fischer b c j' k"
          by (rule IH) (simp add: j)
        have h4: "wagner_fischer a c i k' \<le> wagner_fischer a b i j' + wagner_fischer b c j' k'"
          by (rule IH) (simp add: j k)
        have h5: "wagner_fischer a c i' k \<le> wagner_fischer a b i' j' + wagner_fischer b c j' k"
          by (rule IH) (simp add: i j)
        have h6: "wagner_fischer a c i' k' \<le> wagner_fischer a b i' j' + wagner_fischer b c j' k'"
          by (rule IH) (simp add: i j k)
        show ?thesis
          using ab bc del ins sub h1 h2 h3 h4 h5 h6 d by linarith
      qed
    qed
  qed
qed

subsection \<open>The loops within the range of the counters\<close>

text \<open>
  One unfolding of each loop, under its condition. When \<^verbatim>\<open>m\<close> and \<^verbatim>\<open>n\<close> are at most
  \<open>2\<^sup>3\<^sup>2 - 1\<close> no counter and no table entry wraps around, every loop terminates, and
  the table holds the values of the recurrence on the lower-cased strings.
\<close>

lemma fill_first_column_step:
  "i < m \<Longrightarrow> fill_first_column m i d = fill_first_column m (uinc i) (table_set d i 0 i)"
  "\<not> i < m \<Longrightarrow> fill_first_column m i d = Some d"
  by (subst fill_first_column.simps, simp)+

lemma fill_first_row_step:
  "j < n \<Longrightarrow> fill_first_row n j d = fill_first_row n (uinc j) (table_set d 0 j j)"
  "\<not> j < n \<Longrightarrow> fill_first_row n j d = Some d"
  by (subst fill_first_row.simps, simp)+

lemma fill_column_step:
  "i < m \<Longrightarrow> fill_column first second m j i d =
     fill_column first second m j (uinc i)
             (if tolower (first ! udec i) = tolower (second ! udec j)
              then table_set d i j (d ! udec i ! udec j)
              else table_set d i j
                     (min (min (uinc (d ! udec i ! j))
                               (uinc (d ! i ! udec j)))
                          (uinc (d ! udec i ! udec j))))"
  "\<not> i < m \<Longrightarrow> fill_column first second m j i d = Some d"
  by (subst fill_column.simps, simp)+

lemma fill_table_step:
  "j < n \<Longrightarrow> fill_table first second m n j d =
      Option.bind (fill_column first second m j 1 d)
             (\<lambda>d'. fill_table first second m n (uinc j) d')"
  "\<not> j < n \<Longrightarrow> fill_table first second m n j d = Some d"
  by (subst fill_table.simps, simp)+


lemma table_shape_set: "table_shape m n d \<Longrightarrow> table_shape m n (table_set d i j v)"
  by (cases "i < length d") (auto simp: table_shape_def table_set_def nth_list_update)

lemma table_get_set:
  "table_shape m n d \<Longrightarrow> i < m \<Longrightarrow> j < n \<Longrightarrow>
   table_set d i j v ! r ! c = (if r = i \<and> c = j then v else d ! r ! c)"
  by (auto simp: table_shape_def table_set_def nth_list_update)

lemma table_shape_replicate: "table_shape m n (replicate m (replicate n 0))"
  by (simp add: table_shape_def)

lemma uinc_small: "x < 4294967295 \<Longrightarrow> uinc x = x + 1"
  by (simp add: uinc_def)

lemma udec_pos: "0 < x \<Longrightarrow> x < 4294967296 \<Longrightarrow> udec x = x - 1"
  by (simp add: udec_def mod_if)

lemma fill_first_column_total:
  assumes "m \<le> 4294967295" and "0 < n"
  shows "table_shape m n d \<Longrightarrow> i \<le> m \<Longrightarrow>
    \<exists>d'. fill_first_column m i d = Some d' \<and> table_shape m n d' \<and>
         (\<forall>r<m. \<forall>c<n. d' ! r ! c = (if c = 0 \<and> i \<le> r then r else d ! r ! c))"
proof (induction "m - i" arbitrary: i d)
  case 0
  then have "\<not> i < m" by simp
  with 0 show ?case by (auto simp: fill_first_column_step)
next
  case (Suc k)
  then have lt: "i < m" by simp
  let ?d = "table_set d i 0 i"
  have inc: "uinc i = i + 1" using lt assms(1) by (simp add: uinc_small)
  have sh: "table_shape m n ?d" using Suc.prems(1) by (rule table_shape_set)
  have "k = m - (i + 1)" using Suc.hyps(2) by simp
  from Suc.hyps(1) [OF this sh] lt
  obtain d' where d': "fill_first_column m (i + 1) ?d = Some d'" "table_shape m n d'"
    "\<forall>r<m. \<forall>c<n. d' ! r ! c = (if c = 0 \<and> i + 1 \<le> r then r else ?d ! r ! c)"
    by auto
  have "fill_first_column m i d = Some d'"
    using lt d'(1) inc by (simp add: fill_first_column_step)
  moreover have "\<forall>r<m. \<forall>c<n. d' ! r ! c = (if c = 0 \<and> i \<le> r then r else d ! r ! c)"
    using d'(3) lt assms(2) by (auto simp: table_get_set [OF Suc.prems(1)])
  ultimately show ?case using d'(2) by simp
qed

lemma fill_first_row_total:
  assumes "n \<le> 4294967295" and "0 < m"
  shows "table_shape m n d \<Longrightarrow> j \<le> n \<Longrightarrow>
    \<exists>d'. fill_first_row n j d = Some d' \<and> table_shape m n d' \<and>
         (\<forall>r<m. \<forall>c<n. d' ! r ! c = (if r = 0 \<and> j \<le> c then c else d ! r ! c))"
proof (induction "n - j" arbitrary: j d)
  case 0
  then have "\<not> j < n" by simp
  with 0 show ?case by (auto simp: fill_first_row_step)
next
  case (Suc k)
  then have lt: "j < n" by simp
  let ?d = "table_set d 0 j j"
  have inc: "uinc j = j + 1" using lt assms(1) by (simp add: uinc_small)
  have sh: "table_shape m n ?d" using Suc.prems(1) by (rule table_shape_set)
  have "k = n - (j + 1)" using Suc.hyps(2) by simp
  from Suc.hyps(1) [OF this sh] lt
  obtain d' where d': "fill_first_row n (j + 1) ?d = Some d'" "table_shape m n d'"
    "\<forall>r<m. \<forall>c<n. d' ! r ! c = (if r = 0 \<and> j + 1 \<le> c then c else ?d ! r ! c)"
    by auto
  have "fill_first_row n j d = Some d'"
    using lt d'(1) inc by (simp add: fill_first_row_step)
  moreover have "\<forall>r<m. \<forall>c<n. d' ! r ! c = (if r = 0 \<and> j \<le> c then c else d ! r ! c)"
    using d'(3) lt assms(2) by (auto simp: table_get_set [OF Suc.prems(1)])
  ultimately show ?case using d'(2) by simp
qed


lemma fill_column_total:
  assumes m: "m = length first + 1" "m \<le> 4294967295"
    and n: "n = length second + 1" "n \<le> 4294967295"
    and j: "1 \<le> j" "j < n"
  shows "filled (map tolower first) (map tolower second) m n d j i \<Longrightarrow> 1 \<le> i \<Longrightarrow> i \<le> m \<Longrightarrow>
    \<exists>d'. fill_column first second m j i d = Some d' \<and>
         filled (map tolower first) (map tolower second) m n d' j m"
proof (induction "m - i" arbitrary: i d)
  case 0
  then have "\<not> i < m" "i = m" by simp_all
  with 0 show ?case by (auto simp: fill_column_step)
next
  case (Suc k)
  let ?a = "map tolower first" and ?b = "map tolower second"
  from Suc have lt: "i < m" by simp
  obtain i' where i': "i = Suc i'" using Suc.prems(2) by (cases i) auto
  obtain j' where j': "j = Suc j'" using j(1) by (cases j) auto
  have sh: "table_shape m n d" using Suc.prems(1) by (simp add: filled_def)
  have val: "\<And>r c. r < m \<Longrightarrow> c < n \<Longrightarrow> r = 0 \<or> c < j \<or> (c = j \<and> r < i) \<Longrightarrow>
      d ! r ! c = wagner_fischer ?a ?b r c"
    using Suc.prems(1) unfolding filled_def by blast
  have inc: "uinc i = i + 1" using lt m(2) by (simp add: uinc_small)
  have deci: "udec i = i'" using lt m(2) i' by (simp add: udec_pos)
  have decj: "udec j = j'" using j(2) n(2) j' by (simp add: udec_pos)
  have i'len: "i' < length first" using lt m(1) i' by simp
  have j'len: "j' < length second" using j(2) n(1) j' by simp
  have c1: "d ! i' ! j = wagner_fischer ?a ?b i' j"
    using lt j(2) i' by (intro val) auto
  have c2: "d ! i ! j' = wagner_fischer ?a ?b i j'"
    using lt j(2) j' by (intro val) auto
  have c3: "d ! i' ! j' = wagner_fischer ?a ?b i' j'"
    using lt j(2) i' j' by (intro val) auto
  have b1: "wagner_fischer ?a ?b i' j < 4294967295"
    using wf_le_max [of ?a ?b i' j] lt j(2) m(2) n(2) i' by simp
  have b2: "wagner_fischer ?a ?b i j' < 4294967295"
    using wf_le_max [of ?a ?b i j'] lt j(2) m(2) n(2) j' by simp
  have b3: "wagner_fischer ?a ?b i' j' < 4294967295"
    using wf_le_max [of ?a ?b i' j'] lt j(2) m(2) n(2) i' j' by simp
  define v where "v = (if tolower (first ! udec i) = tolower (second ! udec j)
              then d ! udec i ! udec j
              else min (min (uinc (d ! udec i ! j)) (uinc (d ! i ! udec j)))
                       (uinc (d ! udec i ! udec j)))"
  have v': "v = (if tolower (first ! i') = tolower (second ! j')
              then d ! i' ! j'
              else min (min (uinc (d ! i' ! j)) (uinc (d ! i ! j'))) (uinc (d ! i' ! j')))"
    unfolding v_def deci decj by (rule refl)
  have v: "v = wagner_fischer ?a ?b i j"
  proof (cases "tolower (first ! i') = tolower (second ! j')")
    case True
    then have "?a ! i' = ?b ! j'" using i'len j'len by simp
    then have "wagner_fischer ?a ?b (Suc i') (Suc j') = wagner_fischer ?a ?b i' j'"
      by (rule wf_match)
    moreover have "v = wagner_fischer ?a ?b i' j'" using True by (simp add: v' c3)
    ultimately show ?thesis by (simp add: i' j')
  next
    case False
    then have ne: "?a ! i' \<noteq> ?b ! j'" using i'len j'len by simp
    have "v = min (min (wagner_fischer ?a ?b i' j + 1) (wagner_fischer ?a ?b i j' + 1))
                  (wagner_fischer ?a ?b i' j' + 1)"
      using False b1 b2 b3 by (simp add: v' c1 c2 c3 uinc_small)
    moreover have "wagner_fischer ?a ?b (Suc i') (Suc j') =
        min (min (wagner_fischer ?a ?b i' (Suc j') + 1) (wagner_fischer ?a ?b (Suc i') j' + 1))
            (wagner_fischer ?a ?b i' j' + 1)"
      using ne by simp
    ultimately show ?thesis by (simp add: i' j')
  qed
  let ?d = "table_set d i j v"
  have step: "fill_column first second m j i d = fill_column first second m j (i + 1) ?d"
    using lt by (simp add: fill_column_step(1) inc v_def table_set_def)
  have "filled ?a ?b m n ?d j (i + 1)"
    unfolding filled_def
  proof (intro conjI allI impI)
    show "table_shape m n ?d" using sh by (rule table_shape_set)
  next
    fix r c assume rc: "r < m" "c < n" "r = 0 \<or> c < j \<or> c = j \<and> r < i + 1"
    show "?d ! r ! c = wagner_fischer ?a ?b r c"
    proof (cases "r = i \<and> c = j")
      case True
      then show ?thesis using v lt j(2) by (simp add: table_get_set [OF sh])
    next
      case False
      then have "r = 0 \<or> c < j \<or> (c = j \<and> r < i)" using rc(3) by auto
      then have "d ! r ! c = wagner_fischer ?a ?b r c" using rc by (intro val) auto
      then show ?thesis using False lt j(2) by (auto simp: table_get_set [OF sh])
    qed
  qed
  moreover have "k = m - (i + 1)" using Suc.hyps(2) by simp
  moreover have "1 \<le> i + 1" "i + 1 \<le> m" using lt by simp_all
  ultimately obtain d' where "fill_column first second m j (i + 1) ?d = Some d'"
      "filled ?a ?b m n d' j m"
    using Suc.hyps(1) by blast
  then show ?case using step by simp
qed

lemma filled_next:
  assumes "filled a b m n d j m"
  shows "filled a b m n d (j + 1) 1"
  unfolding filled_def
proof (intro conjI allI impI)
  show "table_shape m n d" using assms by (simp add: filled_def)
next
  fix r c assume rc: "r < m" "c < n" "r = 0 \<or> c < j + 1 \<or> c = j + 1 \<and> r < 1"
  then have "r = 0 \<or> c < j \<or> (c = j \<and> r < m)" by auto
  with assms rc(1,2) show "d ! r ! c = wagner_fischer a b r c"
    unfolding filled_def by blast
qed

lemma fill_table_total:
  assumes m: "m = length first + 1" "m \<le> 4294967295"
    and n: "n = length second + 1" "n \<le> 4294967295"
  shows "filled (map tolower first) (map tolower second) m n d j 1 \<Longrightarrow> 1 \<le> j \<Longrightarrow> j \<le> n \<Longrightarrow>
    \<exists>d'. fill_table first second m n j d = Some d' \<and>
         filled (map tolower first) (map tolower second) m n d' n 1"
proof (induction "n - j" arbitrary: j d)
  case 0
  then have "\<not> j < n" "j = n" by simp_all
  with 0 show ?case by (auto simp: fill_table_step)
next
  case (Suc k)
  let ?a = "map tolower first" and ?b = "map tolower second"
  from Suc have lt: "j < n" by simp
  have inc: "uinc j = j + 1" using lt n(2) by (simp add: uinc_small)
  have "1 \<le> m" using m(1) by simp
  from fill_column_total [OF m n Suc.prems(2) lt Suc.prems(1) _ this]
  obtain d1 where d1: "fill_column first second m j 1 d = Some d1" "filled ?a ?b m n d1 j m"
    by auto
  have "filled ?a ?b m n d1 (j + 1) 1" using d1(2) by (rule filled_next)
  moreover have "k = n - (j + 1)" using Suc.hyps(2) by simp
  moreover have "1 \<le> j + 1" "j + 1 \<le> n" using lt by simp_all
  ultimately obtain d' where "fill_table first second m n (j + 1) d1 = Some d'"
      "filled ?a ?b m n d' n 1"
    using Suc.hyps(1) by blast
  then show ?case using lt d1(1) inc by (simp add: fill_table_step)
qed

lemma edit_distance_bounded:
  assumes "length first \<le> 4294967294" and "length second \<le> 4294967294"
  shows "edit_distance first second =
         Some (classic_edit_distance (map tolower first) (map tolower second))"
proof -
  let ?a = "map tolower first" and ?b = "map tolower second"
  define m where "m = length first + 1"
  define n where "n = length second + 1"
  have m: "m = length first + 1" "m \<le> 4294967295" using assms by (simp_all add: m_def)
  have n: "n = length second + 1" "n \<le> 4294967295" using assms by (simp_all add: n_def)
  have pos: "0 < m" "0 < n" using m n by simp_all
  let ?d0 = "replicate m (replicate n (0::nat))"
  from fill_first_column_total [OF m(2) pos(2) table_shape_replicate, of 0]
  obtain d1 where d1: "fill_first_column m 0 ?d0 = Some d1" "table_shape m n d1"
      "\<forall>r<m. \<forall>c<n. d1 ! r ! c = (if c = 0 \<and> 0 \<le> r then r else ?d0 ! r ! c)"
    by auto
  from fill_first_row_total [OF n(2) pos(1) d1(2), of 0]
  obtain d2 where d2: "fill_first_row n 0 d1 = Some d2" "table_shape m n d2"
      "\<forall>r<m. \<forall>c<n. d2 ! r ! c = (if r = 0 \<and> 0 \<le> c then c else d1 ! r ! c)"
    by auto
  have "filled ?a ?b m n d2 1 1"
    unfolding filled_def using d2(2) d2(3) d1(3) by auto
  from fill_table_total [OF m n this] pos
  obtain d3 where d3: "fill_table first second m n 1 d2 = Some d3" "filled ?a ?b m n d3 n 1"
    by auto
  have "d3 ! (m - 1) ! (n - 1) = wagner_fischer ?a ?b (m - 1) (n - 1)"
    using d3(2) pos by (auto simp: filled_def)
  then show ?thesis
    using d1(1) d2(1) d3(1)
    by (simp add: edit_distance_def m_def [symmetric] n_def [symmetric] Let_def
        classic_edit_distance_def m(1) n(1))
qed

subsection \<open>The loops beyond the range of the counters\<close>

text \<open>
  When the bound is \<open>2\<^sup>3\<^sup>2\<close> or more, the counter stays below it for ever: the two
  border loops return nothing.
\<close>

lemma fill_first_column_Some:
  assumes "fill_first_column m i d = Some y"
  shows "\<not> (4294967296 \<le> m \<and> i < 4294967296)"
proof (rule fill_first_column.raw_induct
        [where P = "\<lambda>m i d y. \<not> (4294967296 \<le> m \<and> i < 4294967296)", OF _ assms])
  fix f :: "nat \<Rightarrow> nat \<Rightarrow> table \<Rightarrow> table option" and m i d y
  assume IH: "\<And>m i d y. f m i d = Some y \<Longrightarrow> \<not> (4294967296 \<le> m \<and> i < 4294967296)"
    and eq: "(if i < m then f m (uinc i) (table_set d i 0 i) else Some d) = Some y"
  show "\<not> (4294967296 \<le> m \<and> i < 4294967296)"
  proof (cases "i < m")
    case True
    with eq have "f m (uinc i) (table_set d i 0 i) = Some y" by simp
    from IH [OF this] have "\<not> 4294967296 \<le> m" by (simp add: uinc_def)
    then show ?thesis by simp
  next
    case False
    then show ?thesis by auto
  qed
qed

lemma fill_first_row_Some:
  assumes "fill_first_row n j d = Some y"
  shows "\<not> (4294967296 \<le> n \<and> j < 4294967296)"
proof (rule fill_first_row.raw_induct
        [where P = "\<lambda>n j d y. \<not> (4294967296 \<le> n \<and> j < 4294967296)", OF _ assms])
  fix f :: "nat \<Rightarrow> nat \<Rightarrow> table \<Rightarrow> table option" and n j d y
  assume IH: "\<And>n j d y. f n j d = Some y \<Longrightarrow> \<not> (4294967296 \<le> n \<and> j < 4294967296)"
    and eq: "(if j < n then f n (uinc j) (table_set d 0 j j) else Some d) = Some y"
  show "\<not> (4294967296 \<le> n \<and> j < 4294967296)"
  proof (cases "j < n")
    case True
    with eq have "f n (uinc j) (table_set d 0 j j) = Some y" by simp
    from IH [OF this] have "\<not> 4294967296 \<le> n" by (simp add: uinc_def)
    then show ?thesis by simp
  next
    case False
    then show ?thesis by auto
  qed
qed

lemma edit_distance_first_long:
  assumes "4294967295 \<le> length first"
  shows "edit_distance first second = None"
proof -
  have "fill_first_column (length first + 1) 0 d = None" for d
    using fill_first_column_Some [of "length first + 1" 0 d] assms
    by (cases "fill_first_column (length first + 1) 0 d") auto
  then show ?thesis by (simp add: edit_distance_def)
qed

lemma edit_distance_second_long:
  assumes "4294967295 \<le> length second"
  shows "edit_distance first second = None"
proof -
  have "fill_first_row (length second + 1) 0 d = None" for d
    using fill_first_row_Some [of "length second + 1" 0 d] assms
    by (cases "fill_first_row (length second + 1) 0 d") auto
  then show ?thesis
    by (cases "fill_first_column (length first + 1) 0
                 (replicate (length first + 1) (replicate (length second + 1) 0))")
       (simp_all add: edit_distance_def)
qed

lemma edit_distance_eq:
  "edit_distance first second =
     (if length first \<le> 4294967294 \<and> length second \<le> 4294967294
      then Some (spec_edit_distance first second)
      else None)"
  using edit_distance_bounded [of first second]
    edit_distance_first_long [of first second] edit_distance_second_long [of second first]
  by (auto simp: spec_edit_distance_def)


subsection \<open>The claims about the edit distance\<close>

lemma spec_edit_distance_sym: "spec_edit_distance a b = spec_edit_distance b a"
  by (simp add: spec_edit_distance_def classic_edit_distance_def wf_sym [of "map tolower a"])

lemma spec_edit_distance_triangle:
  "spec_edit_distance a c \<le> spec_edit_distance a b + spec_edit_distance b c"
  by (simp add: spec_edit_distance_def classic_edit_distance_def wf_triangle)

lemma spec_edit_distance_empty:
  "spec_edit_distance [] s = length s" "spec_edit_distance s [] = length s"
  by (simp_all add: spec_edit_distance_def classic_edit_distance_def)

text \<open>
  Within the range of the 32-bit counters, that is for strings of at most \<open>2\<^sup>3\<^sup>2 - 2\<close>
  characters, and with the table allocated: \<^verbatim>\<open>edit_distance\<close> returns the classic
  Wagner-Fischer edit distance with unit costs between the two strings taken
  case-insensitively; it is symmetric and satisfies the triangle inequality; and
  \<^verbatim>\<open>edit_distance("gro", "gro")\<close> is 0, \<^verbatim>\<open>edit_distance("xyz", "xtc")\<close> is 2.
\<close>

lemma edit_distance_in_range:
  assumes "length a \<le> 4294967294" and "length b \<le> 4294967294" and "length c \<le> 4294967294"
  shows "edit_distance a b = Some (spec_edit_distance a b)
       \<and> edit_distance a b = edit_distance b a
       \<and> (\<exists>x y z. edit_distance a c = Some x \<and> edit_distance a b = Some y
                  \<and> edit_distance b c = Some z \<and> x \<le> y + z)
       \<and> edit_distance ''gro'' ''gro'' = Some 0
       \<and> edit_distance ''xyz'' ''xtc'' = Some 2"
proof -
  have v1: "spec_edit_distance ''gro'' ''gro'' = 0"
    by (simp add: spec_edit_distance_def classic_edit_distance_def tolower_def eval_nat_numeral)
  have v2: "spec_edit_distance ''xyz'' ''xtc'' = 2"
    by (simp add: spec_edit_distance_def classic_edit_distance_def tolower_def eval_nat_numeral)
  show ?thesis
    using assms spec_edit_distance_triangle [of a c b] v1 v2
    by (simp add: edit_distance_eq spec_edit_distance_sym [of a b])
qed

lemma edit_distance_in_range_example:
  "length ''gro'' \<le> 4294967294 \<and> length ''GRO'' \<le> 4294967294 \<and> length ''xtc'' \<le> 4294967294
   \<and> edit_distance ''gro'' ''GRO'' = Some 0
   \<and> edit_distance ''GRO'' ''gro'' = Some 0
   \<and> (\<exists>x y z. edit_distance ''gro'' ''xtc'' = Some x \<and> edit_distance ''gro'' ''GRO'' = Some y
              \<and> edit_distance ''GRO'' ''xtc'' = Some z \<and> x \<le> y + z)"
proof -
  have h: "length ''gro'' \<le> 4294967294" "length ''GRO'' \<le> 4294967294"
      "length ''xtc'' \<le> 4294967294"
    by simp_all
  have v: "spec_edit_distance ''gro'' ''GRO'' = 0"
    by (simp add: spec_edit_distance_def classic_edit_distance_def tolower_def eval_nat_numeral)
  from edit_distance_in_range [OF h(1) h(2) h(3)] v h
  show ?thesis by auto
qed

lemma spec_edit_distance_lower: "length a \<le> length b + spec_edit_distance a b"
proof -
  have "spec_edit_distance a b =
      wagner_fischer (map tolower b) (map tolower a) (length b) (length a)"
    by (simp add: spec_edit_distance_def classic_edit_distance_def wf_sym [of "map tolower a"])
  then show ?thesis
    using wf_lower [of "length a" "length b" "map tolower b" "map tolower a"] by simp
qed

lemma spec_edit_distance_le_max: "spec_edit_distance a b \<le> max (length a) (length b)"
  using wf_le_max [of "map tolower a" "map tolower b" "length a" "length b"]
  by (simp add: spec_edit_distance_def classic_edit_distance_def)

text \<open>
  Claim C5 has \<^verbatim>\<open>edit_distance\<close> be the classic Wagner-Fischer distance, symmetric and
  with the triangle inequality, for all strings. With a string of \<open>2\<^sup>3\<^sup>2 - 1\<close> letters
  \<open>a\<close> and the string \<open>gro\<close> the code returns no distance, in either order of the two
  arguments: the bound \<^verbatim>\<open>m\<close> (or \<^verbatim>\<open>n\<close>) is \<open>2\<^sup>3\<^sup>2\<close>, a \<^verbatim>\<open>size_t\<close>, and the
  \<^verbatim>\<open>unsigned\<close> counter of the border loop wraps to 0 before it reaches it. The classic
  distance of the two strings is at most \<open>2\<^sup>3\<^sup>2 - 1\<close> and would fit the \<^verbatim>\<open>unsigned\<close>
  result.
\<close>

theorem edit_distance_long_string:
  "edit_distance (replicate 4294967295 (CHR ''a'')) ''gro'' = None
   \<and> edit_distance ''gro'' (replicate 4294967295 (CHR ''a'')) = None
   \<and> spec_edit_distance (replicate 4294967295 (CHR ''a'')) ''gro'' \<le> 4294967295
   \<and> spec_edit_distance ''gro'' (replicate 4294967295 (CHR ''a''))
       = spec_edit_distance (replicate 4294967295 (CHR ''a'')) ''gro''"
  using spec_edit_distance_le_max [of "replicate 4294967295 (CHR ''a'')" "''gro''"]
  by (simp add: edit_distance_eq spec_edit_distance_sym [of "''gro''"])

text \<open>
  Within the same range, the edit distance between the empty string and \<open>s\<close>, in either
  order, is the length of \<open>s\<close>.
\<close>

lemma edit_distance_empty_in_range:
  assumes "length s \<le> 4294967294"
  shows "edit_distance [] s = Some (length s) \<and> edit_distance s [] = Some (length s)"
  using assms by (simp add: edit_distance_eq spec_edit_distance_empty)

lemma edit_distance_empty_in_range_example:
  "length ''gro'' \<le> 4294967294
   \<and> edit_distance [] ''gro'' = Some 3 \<and> edit_distance ''gro'' [] = Some 3"
proof -
  have h: "length ''gro'' \<le> 4294967294" by simp
  from edit_distance_empty_in_range [OF h] h show ?thesis by simp
qed

text \<open>
  Claim C9 has the edit distance between the empty string and any string \<open>s\<close>, in
  either order, be the length of \<open>s\<close>. For \<open>s\<close> of \<open>2\<^sup>3\<^sup>2 - 1\<close> characters the code
  returns no distance in either order, while the length of \<open>s\<close>, which is also the
  classic distance, is \<open>2\<^sup>3\<^sup>2 - 1\<close> and would fit the \<^verbatim>\<open>unsigned\<close> result: the
  \<^verbatim>\<open>unsigned\<close> counter \<^verbatim>\<open>j\<close> (or \<^verbatim>\<open>i\<close>) of the border loop never reaches the
  \<^verbatim>\<open>size_t\<close> bound \<open>2\<^sup>3\<^sup>2\<close>.
\<close>

theorem edit_distance_empty_long_string:
  "edit_distance [] (replicate 4294967295 (CHR ''a'')) = None
   \<and> edit_distance (replicate 4294967295 (CHR ''a'')) [] = None
   \<and> length (replicate 4294967295 (CHR ''a'')) = 4294967295
   \<and> spec_edit_distance [] (replicate 4294967295 (CHR ''a'')) = 4294967295
   \<and> (4294967295 :: nat) < 2 ^ 32"
  by (simp add: edit_distance_eq spec_edit_distance_empty)


section \<open>Properties of the lookup\<close>

text \<open>
  The two loops of \<^verbatim>\<open>suggest_names\<close>: the names collected are the registered names at
  distance below 4, in order, and they are printed as the list of the specification.
\<close>

lemma collect_suggestions_eq:
  assumes "length q \<le> 4294967294"
  shows "\<forall>f \<in> set formats. length (name (info f)) \<le> 4294967294 \<Longrightarrow>
    collect_suggestions formats q acc =
      Some (acc @ filter (\<lambda>n. spec_edit_distance q n < 4) (map (name \<circ> info) formats))"
proof (induction formats arbitrary: acc)
  case Nil
  show ?case by simp
next
  case (Cons other rest)
  then have "edit_distance q (name (info other)) = Some (spec_edit_distance q (name (info other)))"
    using assms by (simp add: edit_distance_eq)
  with Cons show ?case by simp
qed

lemma collect_suggestions_long:
  assumes "4294967295 \<le> length q" and "formats \<noteq> []"
  shows "collect_suggestions formats q acc = None"
  using assms by (cases formats) (simp_all add: edit_distance_eq)

lemma print_suggestions_rest:
  "print_suggestions xs False message = message @ concat (map (\<lambda>s. '' or '' @ quoted s) xs)"
  by (induction xs arbitrary: message) simp_all

lemma join_or_Cons:
  "join_or (s # rest) = quoted s @ concat (map (\<lambda>s. '' or '' @ quoted s) rest)"
  by (induction rest arbitrary: s) simp_all

lemma print_suggestions_first:
  "print_suggestions (s # rest) True message = message @ '' '' @ join_or (s # rest)"
  by (simp add: print_suggestions_rest join_or_Cons)

lemma suggest_names_eq:
  assumes "length q \<le> 4294967294" and "\<forall>f \<in> set formats. length (name (info f)) \<le> 4294967294"
  shows "suggest_names formats q =
    Some (not_found_message q
            (filter (\<lambda>n. spec_edit_distance q n < 4) (map (name \<circ> info) formats)))"
proof -
  let ?s = "filter (\<lambda>n. spec_edit_distance q n < 4) (map (name \<circ> info) formats)"
  have c: "collect_suggestions formats q [] = Some ?s"
    using collect_suggestions_eq [OF assms, of "[]"] by simp
  show ?thesis
  proof (cases ?s)
    case Nil
    with c show ?thesis by (simp add: suggest_names_def not_found_message_def)
  next
    case (Cons s rest)
    with c show ?thesis
      by (simp add: suggest_names_def not_found_message_def print_suggestions_first
            del: print_suggestions.simps join_or.simps)
  qed
qed

text \<open>
  Within the range of the counters of \<^verbatim>\<open>edit_distance\<close> (a query and registered names of
  at most \<open>2\<^sup>3\<^sup>2 - 2\<close> characters), on a registry whose size fits \<^verbatim>\<open>size_t\<close>: the lookup
  returns the creator of the registered format whose name is the query, compared
  exactly; when there is none it fails with a \<^verbatim>\<open>FormatError\<close> whose message names the
  query and lists exactly the registered names at case-insensitive edit distance below 4
  from the query, in registration order, and has no such list when no name qualifies.
\<close>

lemma lookup_by_name_in_range:
  assumes "length formats \<le> SENTINEL_INDEX"
    and "length q \<le> 4294967294"
    and "\<forall>f \<in> set formats. length (name (info f)) \<le> 4294967294"
  shows "(\<forall>f. find (\<lambda>f. name (info f) = q) formats = Some f \<longrightarrow>
              FormatFactory_name q formats = Some (Inr (creator f)))
       \<and> (find (\<lambda>f. name (info f) = q) formats = None \<longrightarrow>
              FormatFactory_name q formats =
                Some (Inl (FormatError (not_found_message q
                  (filter (\<lambda>n. spec_edit_distance q n < 4) (map (name \<circ> info) formats))))))"
proof (intro conjI allI impI)
  fix f assume "find (\<lambda>f. name (info f) = q) formats = Some f"
  from find_by_name_find [OF this assms(1)]
  show "FormatFactory_name q formats = Some (Inr (creator f))"
    by (simp add: FormatFactory_name_def)
next
  assume "find (\<lambda>f. name (info f) = q) formats = None"
  then have "find_by_name formats q = SENTINEL_INDEX"
    unfolding find_by_name_def by (intro find_by_name_loop_None) simp
  then show "FormatFactory_name q formats =
                Some (Inl (FormatError (not_found_message q
                  (filter (\<lambda>n. spec_edit_distance q n < 4) (map (name \<circ> info) formats)))))"
    by (simp add: FormatFactory_name_def suggest_names_eq [OF assms(2,3)])
qed

lemma lookup_by_name_in_range_example:
  "length xyz_registry \<le> SENTINEL_INDEX
   \<and> length ''XTC'' \<le> 4294967294
   \<and> length (name xyz_info) \<le> 4294967294
   \<and> find (\<lambda>f. name (info f) = ''XTC'') xyz_registry = None
   \<and> FormatFactory_name ''XTC'' xyz_registry =
       Some (Inl (FormatError (''can not find a format named '' @ quoted ''XTC'' @
                               '', did you mean '' @ quoted ''XYZ'' @ ''?'')))
   \<and> find (\<lambda>f. name (info f) = ''xyz'') xyz_registry = None
   \<and> FormatFactory_name ''xyz'' xyz_registry =
       Some (Inl (FormatError (''can not find a format named '' @ quoted ''xyz'' @
                               '', did you mean '' @ quoted ''XYZ'' @ ''?'')))
   \<and> find (\<lambda>f. name (info f) = ''XYZ'') xyz_registry = Some (hd xyz_registry)
   \<and> FormatFactory_name ''XYZ'' xyz_registry = Some (Inr 0)"
proof -
  have h1: "length xyz_registry \<le> SENTINEL_INDEX"
    by (simp add: xyz_registry_def SENTINEL_INDEX_def)
  have h2: "length ''XTC'' \<le> 4294967294" "length ''XYZ'' \<le> 4294967294"
    "length ''xyz'' \<le> 4294967294" by simp_all
  have h3: "\<forall>f \<in> set xyz_registry. length (name (info f)) \<le> 4294967294"
    by (simp add: xyz_registry_def xyz_info_def)
  have n: "find (\<lambda>f. name (info f) = ''XTC'') xyz_registry = None"
    by (simp add: xyz_registry_def xyz_info_def)
  have y: "find (\<lambda>f. name (info f) = ''XYZ'') xyz_registry = Some (hd xyz_registry)"
    by (simp add: xyz_registry_def xyz_info_def)
  have d: "spec_edit_distance ''XTC'' ''XYZ'' = 2"
    by (simp add: spec_edit_distance_def classic_edit_distance_def tolower_def eval_nat_numeral)
  from lookup_by_name_in_range [OF h1 h2(1) h3] n
  have "FormatFactory_name ''XTC'' xyz_registry =
      Some (Inl (FormatError (not_found_message ''XTC''
         (filter (\<lambda>n. spec_edit_distance ''XTC'' n < 4) (map (name \<circ> info) xyz_registry)))))"
    by blast
  then have "FormatFactory_name ''XTC'' xyz_registry =
       Some (Inl (FormatError (''can not find a format named '' @ quoted ''XTC'' @
                               '', did you mean '' @ quoted ''XYZ'' @ ''?'')))"
    using d by (simp add: xyz_registry_def xyz_info_def not_found_message_def)
  moreover have n': "find (\<lambda>f. name (info f) = ''xyz'') xyz_registry = None"
    by (simp add: xyz_registry_def xyz_info_def)
  moreover have d': "spec_edit_distance ''xyz'' ''XYZ'' = 0"
    by (simp add: spec_edit_distance_def classic_edit_distance_def tolower_def eval_nat_numeral)
  from lookup_by_name_in_range [OF h1 h2(3) h3] n'
  have "FormatFactory_name ''xyz'' xyz_registry =
      Some (Inl (FormatError (not_found_message ''xyz''
         (filter (\<lambda>n. spec_edit_distance ''xyz'' n < 4) (map (name \<circ> info) xyz_registry)))))"
    by blast
  then have "FormatFactory_name ''xyz'' xyz_registry =
       Some (Inl (FormatError (''can not find a format named '' @ quoted ''xyz'' @
                               '', did you mean '' @ quoted ''XYZ'' @ ''?'')))"
    using d' by (simp add: xyz_registry_def xyz_info_def not_found_message_def)
  moreover from lookup_by_name_in_range [OF h1 h2(2) h3] y
  have "FormatFactory_name ''XYZ'' xyz_registry = Some (Inr (creator (hd xyz_registry)))"
    by blast
  then have "FormatFactory_name ''XYZ'' xyz_registry = Some (Inr 0)"
    by (simp add: xyz_registry_def)
  moreover have "length (name xyz_info) \<le> 4294967294" by (simp add: xyz_info_def)
  ultimately show ?thesis using h1 h2 n y by blast
qed

text \<open>
  Claim C3 has the lookup of a name that is not registered fail with a not-found error
  listing the registered names at distance below 4, for every query. On the registry
  holding XYZ and a query of \<open>2\<^sup>3\<^sup>2 - 1\<close> letters \<open>a\<close> the name is not found and the
  code returns nothing, neither a creator nor an error: \<^verbatim>\<open>suggest_names\<close> calls
  \<^verbatim>\<open>edit_distance\<close>, whose first loop does not end. The classic distance from the query
  to XYZ is at least 4, so the claim has the call fail with the message without
  suggestions.
\<close>

theorem lookup_by_name_long_query:
  "find (\<lambda>f. name (info f) = replicate 4294967295 (CHR ''a'')) xyz_registry = None
   \<and> FormatFactory_name (replicate 4294967295 (CHR ''a'')) xyz_registry = None
   \<and> 4 \<le> spec_edit_distance (replicate 4294967295 (CHR ''a'')) (name xyz_info)
   \<and> FormatFactory_name (replicate 4294967295 (CHR ''a'')) xyz_registry
       \<noteq> Some (Inl (FormatError
            (not_found_message (replicate 4294967295 (CHR ''a'')) [])))"
proof -
  let ?q = "replicate 4294967295 (CHR ''a'')"
  have "length (name xyz_info) \<noteq> length ?q" by (simp add: xyz_info_def)
  then have "name xyz_info \<noteq> ?q" by metis
  then have f: "find (\<lambda>f. name (info f) = ?q) xyz_registry = None"
    by (simp add: xyz_registry_def)
  then have "find (\<lambda>f. name (info f) = ?q) (drop 0 xyz_registry) = None" by simp
  then have "find_by_name xyz_registry ?q = SENTINEL_INDEX"
    unfolding find_by_name_def by (rule find_by_name_loop_None)
  moreover have "collect_suggestions xyz_registry ?q [] = None"
    by (rule collect_suggestions_long) (simp_all add: xyz_registry_def)
  ultimately have n: "FormatFactory_name ?q xyz_registry = None"
    by (simp add: FormatFactory_name_def suggest_names_def)
  have d: "4 \<le> spec_edit_distance ?q (name xyz_info)"
    using spec_edit_distance_lower [of ?q "name xyz_info"] by (simp add: xyz_info_def)
  show ?thesis using f n d by simp
qed


section \<open>Properties of the TRR file\<close>

lemmas exdr_defs = exdrOK_def exdrHEADER_def exdrSTRING_def exdrDOUBLE_def exdrINT_def
  exdrFLOAT_def exdrUINT_def exdr3DX_def exdrCLOSE_def exdrMAGIC_def exdrNOMEM_def
  exdrENDOFFILE_def exdrFILENOTFOUND_def exdrNR_def

lemma member_exdr_failures: "status \<in> set exdr_failures \<longleftrightarrow> 1 \<le> status \<and> status \<le> 13"
  unfolding exdr_failures_def exdr_defs by (simp, arith)

lemma check_trr_error_cases:
  "check_trr_error msgs status fn =
     (if 1 \<le> status \<and> status \<le> 13
      then Inl (FileError (''error while calling '' @ fn @ '' in the TRR library: '' @ msgs status))
      else if status = 0 then Inr ()
      else Inl (FileError (''unknown status code from TRR library: '' @ to_string_int status)))"
  by (simp add: check_trr_error_def member_exdr_failures exdrOK_def)

text \<open>
  Claim C4, as the code has it. \<^verbatim>\<open>check_trr_error\<close> turns each failure status of the
  library's enumeration into a \<^verbatim>\<open>FileError\<close> carrying the name of the operation and the
  library's message, every other status but OK into the \<^verbatim>\<open>FileError\<close> "unknown status
  code from TRR library: " followed by the status in decimal, and raises nothing on OK.
  The constructor passes the status of the header read through \<^verbatim>\<open>check_trr_error\<close> in
  read mode, with the text of the call as the name of the operation; in write mode it
  reads no header; in append mode it reads the header and goes on to open the file
  whatever the status was.
\<close>

theorem trr_status_translation:
  "(status \<in> set exdr_failures \<longrightarrow>
      check_trr_error msgs status fn =
        Inl (FileError (''error while calling '' @ fn @ '' in the TRR library: '' @ msgs status)))
   \<and> check_trr_error msgs exdrOK fn = Inr ()
   \<and> (status \<notin> set exdr_failures \<and> status \<noteq> exdrOK \<longrightarrow>
        check_trr_error msgs status fn =
          Inl (FileError (''unknown status code from TRR library: '' @ to_string_int status)))
   \<and> (fst (read_trr_header pth hdr0) \<in> set exdr_failures \<longrightarrow>
        TRRFile_new msgs read_trr_header xdrfile_open hdr0 pth READ =
          Inl (FileError (''error while calling '' @ read_trr_header_text @
                          '' in the TRR library: '' @ msgs (fst (read_trr_header pth hdr0)))))
   \<and> (fst (read_trr_header pth hdr0) \<notin> set exdr_failures
        \<and> fst (read_trr_header pth hdr0) \<noteq> exdrOK \<longrightarrow>
        TRRFile_new msgs read_trr_header xdrfile_open hdr0 pth READ =
          Inl (FileError (''unknown status code from TRR library: '' @
                          to_string_int (fst (read_trr_header pth hdr0)))))
   \<and> (fst (read_trr_header pth hdr0) = exdrOK \<longrightarrow>
        TRRFile_new msgs read_trr_header xdrfile_open hdr0 pth READ =
          TRRFile_open xdrfile_open pth READ ''r'' (snd (read_trr_header pth hdr0)))
   \<and> TRRFile_new msgs read_trr_header xdrfile_open hdr0 pth WRITE =
        TRRFile_open xdrfile_open pth WRITE ''w'' hdr0
   \<and> TRRFile_new msgs read_trr_header xdrfile_open hdr0 pth APPEND =
        TRRFile_open xdrfile_open pth APPEND ''a'' (snd (read_trr_header pth hdr0))"
  by (auto simp: check_trr_error_cases member_exdr_failures TRRFile_new_def exdrOK_def)

theorem trr_status_translation_witness:
  "exdrMAGIC \<in> set exdr_failures
   \<and> check_trr_error example_messages exdrMAGIC ''read_trr'' =
       Inl (FileError (''error while calling read_trr in the TRR library: Magic number''))
   \<and> (42::int) \<notin> set exdr_failures \<and> (42::int) \<noteq> exdrOK
   \<and> check_trr_error example_messages 42 ''read_trr'' =
       Inl (FileError (''unknown status code from TRR library: 42''))
   \<and> fst (header_not_found ''traj.trr'' (0, 0, [])) \<in> set exdr_failures
   \<and> TRRFile_new example_messages header_not_found open_succeeds (0, 0, []) ''traj.trr'' READ =
       Inl (FileError (''error while calling '' @ read_trr_header_text @
                       '' in the TRR library: File not found''))
   \<and> fst (header_unknown ''traj.trr'' (0, 0, [])) \<notin> set exdr_failures
   \<and> fst (header_unknown ''traj.trr'' (0, 0, [])) \<noteq> exdrOK
   \<and> TRRFile_new example_messages header_unknown open_succeeds (0, 0, []) ''traj.trr'' READ =
       Inl (FileError (''unknown status code from TRR library: -1''))
   \<and> fst (header_found ''traj.trr'' (0, 0, [])) = exdrOK
   \<and> TRRFile_new example_messages header_found open_succeeds (0, 0, []) ''traj.trr'' READ =
       Inr \<lparr>path = ''traj.trr'', mode = READ, handle = 1, natoms = 3, nframes = 2,
            offsets = [0, 144]\<rparr>"
proof -
  have h1: "exdrMAGIC \<in> set exdr_failures"
    by (simp add: exdr_failures_def)
  have h2: "(42::int) \<notin> set exdr_failures" "(42::int) \<noteq> exdrOK"
    by (simp_all add: exdr_failures_def exdr_defs)
  have h3: "fst (header_not_found ''traj.trr'' (0, 0, [])) \<in> set exdr_failures"
    by (simp add: header_not_found_def exdr_failures_def)
  have h4: "fst (header_found ''traj.trr'' (0, 0, [])) = exdrOK"
    by (simp add: header_found_def)
  have h5: "fst (header_unknown ''traj.trr'' (0, 0, [])) \<notin> set exdr_failures"
      "fst (header_unknown ''traj.trr'' (0, 0, [])) \<noteq> exdrOK"
    by (simp_all add: header_unknown_def exdr_failures_def exdr_defs)
  have t42: "to_string_int 42 = ''42''"
    by (simp add: to_string_int_def to_string.simps [of 42] to_string.simps [of 4]
          digit_char_def)
  have t1: "to_string_int (- 1) = ''-1''"
    by (simp add: to_string_int_def to_string.simps [of "Suc 0"] digit_char_def)
  from trr_status_translation [of exdrMAGIC example_messages "''read_trr''" header_not_found
      "''traj.trr''" "(0, 0, [])" open_succeeds]
    trr_status_translation [of 42 example_messages "''read_trr''" header_unknown
      "''traj.trr''" "(0, 0, [])" open_succeeds]
    trr_status_translation [of exdrMAGIC example_messages "''read_trr''" header_found
      "''traj.trr''" "(0, 0, [])" open_succeeds] h1 h2 h3 h4 h5 t42 t1
  show ?thesis
    by (simp add: example_messages_def header_not_found_def header_found_def
          header_unknown_def exdr_defs TRRFile_open_def open_succeeds_def)
qed

text \<open>
  In append mode a header read that reports \<^verbatim>\<open>exdrFILENOTFOUND\<close> raises nothing: the
  constructor returns the file.
\<close>

theorem trr_append_swallows_status:
  "TRRFile_new example_messages header_not_found open_succeeds (0, 0, []) ''traj.trr'' APPEND =
     Inr \<lparr>path = ''traj.trr'', mode = APPEND, handle = 1, natoms = 0, nframes = 0, offsets = []\<rparr>"
  by (simp add: TRRFile_new_def TRRFile_open_def header_not_found_def open_succeeds_def)

text \<open>
  Claim C10. For \<open>step\<close> below the number of entries of the offset table,
  \<^verbatim>\<open>offset(step)\<close> returns the entry at \<open>step\<close>; the undefined read is reached only for
  a \<open>step\<close> beyond the table.
\<close>

theorem offset_in_bounds:
  "(step < length (offsets f) \<longrightarrow> TRRFile_offset f step = Some (offsets f ! step))
   \<and> (TRRFile_offset f step \<noteq> None \<longrightarrow> step < length (offsets f))"
  by (simp add: TRRFile_offset_def)

theorem offset_in_bounds_witness:
  "(1::nat) < length (offsets \<lparr>path = ''traj.trr'', mode = READ, handle = (1::nat), natoms = 3,
                                nframes = 2, offsets = [0, 144]\<rparr>)
   \<and> TRRFile_offset \<lparr>path = ''traj.trr'', mode = READ, handle = (1::nat), natoms = 3,
                      nframes = 2, offsets = [0, 144]\<rparr> 1 = Some 144"
  using offset_in_bounds [of 1 "\<lparr>path = ''traj.trr'', mode = READ, handle = (1::nat), natoms = 3,
                      nframes = 2, offsets = [0, 144]\<rparr>"]
  by simp


end
